theory Spec2Isabelle
  imports Main "HOL-Library.Multiset" "HOL-Library.Product_Lexorder"
begin

section \<open>Python values and strings\<close>

text \<open>
  A Python string is modelled by its UTF-8 encoding, a \<^typ>\<open>string\<close>; its
  characters are the UTF-8 sequences, which \<open>chars_of\<close> cuts out. The methods that
  Python defines on characters (\<open>strip\<close>, \<open>split\<close>, \<open>lower\<close>, slicing) work on that
  list; \<open>replace\<close> and \<open>startswith\<close> are only used with ASCII words, for which bytes and
  characters agree.
\<close>

definition seq_len :: "char \<Rightarrow> nat" where
  "seq_len c =
     (if \<not> digit7 c then 1
      else if \<not> digit6 c then 1
      else if \<not> digit5 c then 2
      else if \<not> digit4 c then 3
      else 4)"

fun chars_of :: "string \<Rightarrow> string list" where
  "chars_of [] = []"
| "chars_of (c # cs) =
     (c # take (seq_len c - 1) cs) # chars_of (drop (seq_len c - 1) cs)"

text \<open>
  The characters for which \<open>str.isspace\<close> holds: U+0009 to U+000D, U+001C to U+0020,
  U+0085, U+00A0, U+1680, U+2000 to U+200A, U+2028, U+2029, U+202F, U+205F, U+3000.
\<close>

definition whitespace :: "string list" where
  "whitespace =
     [[CHR 0x09], [CHR 0x0A], [CHR 0x0B], [CHR 0x0C], [CHR 0x0D],
      [CHR 0x1C], [CHR 0x1D], [CHR 0x1E], [CHR 0x1F], [CHR 0x20],
      [CHR 0xC2, CHR 0x85], [CHR 0xC2, CHR 0xA0], [CHR 0xE1, CHR 0x9A, CHR 0x80],
      [CHR 0xE2, CHR 0x80, CHR 0x80], [CHR 0xE2, CHR 0x80, CHR 0x81],
      [CHR 0xE2, CHR 0x80, CHR 0x82], [CHR 0xE2, CHR 0x80, CHR 0x83],
      [CHR 0xE2, CHR 0x80, CHR 0x84], [CHR 0xE2, CHR 0x80, CHR 0x85],
      [CHR 0xE2, CHR 0x80, CHR 0x86], [CHR 0xE2, CHR 0x80, CHR 0x87],
      [CHR 0xE2, CHR 0x80, CHR 0x88], [CHR 0xE2, CHR 0x80, CHR 0x89],
      [CHR 0xE2, CHR 0x80, CHR 0x8A], [CHR 0xE2, CHR 0x80, CHR 0xA8],
      [CHR 0xE2, CHR 0x80, CHR 0xA9], [CHR 0xE2, CHR 0x80, CHR 0xAF],
      [CHR 0xE2, CHR 0x81, CHR 0x9F], [CHR 0xE3, CHR 0x80, CHR 0x80]]"

definition is_space :: "string \<Rightarrow> bool" where
  "is_space ch = (ch \<in> set whitespace)"

definition strip :: "string \<Rightarrow> string" where
  "strip s = concat (rev (dropWhile is_space (rev (dropWhile is_space (chars_of s)))))"

text \<open>
  \<open>s.lower()\<close>. The letters A to Z, and the two characters outside ASCII whose lower
  case has an ASCII letter: the Kelvin sign U+212A gives \<open>k\<close>, and U+0130 gives \<open>i\<close>
  with U+0307. Every other character outside ASCII is left as it is; Python gives a
  character outside ASCII for it, and the program compares the lowered text with ASCII
  words only.
\<close>

definition lower_char :: "string \<Rightarrow> string" where
  "lower_char ch =
     (case map_of (zip (chars_of ''ABCDEFGHIJKLMNOPQRSTUVWXYZ'')
                       (chars_of ''abcdefghijklmnopqrstuvwxyz'')) ch of
        Some d \<Rightarrow> d
      | None \<Rightarrow>
          (if ch = [CHR 0xE2, CHR 0x84, CHR 0xAA] then ''k''
           else if ch = [CHR 0xC4, CHR 0xB0] then [CHR ''i'', CHR 0xCC, CHR 0x87]
           else ch))"

definition lower :: "string \<Rightarrow> string" where
  "lower s = concat (map lower_char (chars_of s))"

definition startswith :: "string \<Rightarrow> string \<Rightarrow> bool" where
  "startswith s p = (take (length p) s = p)"

text \<open>\<open>s.replace(old, new)\<close>: every occurrence, scanning from the left, no overlap.\<close>

fun replace_str :: "string \<Rightarrow> string \<Rightarrow> string \<Rightarrow> string" where
  "replace_str old new [] = []"
| "replace_str old new (c # cs) =
     (if old \<noteq> [] \<and> take (length old) (c # cs) = old
      then new @ replace_str old new (drop (length old) (c # cs))
      else c # replace_str old new cs)"

text \<open>\<open>s.split()\<close>: the maximal runs of characters that are not whitespace.\<close>

primrec split_from :: "string list \<Rightarrow> string list \<Rightarrow> string list" where
  "split_from cur [] = (if cur = [] then [] else [concat (rev cur)])"
| "split_from cur (ch # chs) =
     (if is_space ch
      then (if cur = [] then split_from [] chs else concat (rev cur) # split_from [] chs)
      else split_from (ch # cur) chs)"

definition split :: "string \<Rightarrow> string list" where
  "split s = split_from [] (chars_of s)"

text \<open>\<open>s[:n]\<close>: the first \<open>n\<close> characters.\<close>

definition first_chars :: "nat \<Rightarrow> string \<Rightarrow> string" where
  "first_chars n s = concat (take n (chars_of s))"

text \<open>
  The values that \<open>json.loads\<close> builds and that tool arguments, chat messages and usage
  records are made of. A float is a decimal mantissa and exponent; a dict is an
  association list read with \<^const>\<open>map_of\<close>.
\<close>

datatype json =
    JNull
  | JBool bool
  | JInt int
  | JFloat int int
  | JStr string
  | JList "json list"
  | JDict "(string \<times> json) list"

type_synonym dict = "(string \<times> json) list"

fun truthy :: "json \<Rightarrow> bool" where
  "truthy JNull = False"
| "truthy (JBool b) = b"
| "truthy (JInt n) = (n \<noteq> 0)"
| "truthy (JFloat m e) = (m \<noteq> 0)"
| "truthy (JStr s) = (s \<noteq> [])"
| "truthy (JList xs) = (xs \<noteq> [])"
| "truthy (JDict d) = (d \<noteq> [])"

text \<open>\<open>d.get(k) or default\<close>\<close>

definition get_or :: "dict \<Rightarrow> string \<Rightarrow> json \<Rightarrow> json" where
  "get_or d k dflt = (case map_of d k of Some v \<Rightarrow> (if truthy v then v else dflt) | None \<Rightarrow> dflt)"

text \<open>
  \<open>str(v)\<close>: a string is itself; the printed form of a number, list or dict is left to
  the parameter \<open>repr\<close>.
\<close>

definition py_str :: "(json \<Rightarrow> string) \<Rightarrow> json \<Rightarrow> string" where
  "py_str repr v =
     (case v of
        JStr s \<Rightarrow> s
      | JNull \<Rightarrow> ''None''
      | JBool b \<Rightarrow> (if b then ''True'' else ''False'')
      | _ \<Rightarrow> repr v)"

text \<open>\<open>d[k] = v\<close>: the key keeps its place, a new key goes last.\<close>

fun dict_set :: "dict \<Rightarrow> string \<Rightarrow> json \<Rightarrow> dict" where
  "dict_set [] k v = [(k, v)]"
| "dict_set ((k', v') # d) k v =
     (if k' = k then (k, v) # d else (k', v') # dict_set d k v)"

text \<open>
  Exceptions, each with the text that \<open>str(e)\<close> gives. Only subclasses of \<open>Exception\<close>
  are modelled, so \<open>except Exception\<close> matches every value of the type.
\<close>

datatype exn = JSONDecodeError string | AttributeError string | OtherError string

fun exn_str :: "exn \<Rightarrow> string" where
  "exn_str (JSONDecodeError m) = m"
| "exn_str (AttributeError m) = m"
| "exn_str (OtherError m) = m"

fun is_JSONDecodeError :: "exn \<Rightarrow> bool" where
  "is_JSONDecodeError (JSONDecodeError m) = True"
| "is_JSONDecodeError e = False"

definition is_Exception :: "exn \<Rightarrow> bool" where
  "is_Exception e = True"

text \<open>Calling a method that the value's type does not have.\<close>

fun type_name :: "json \<Rightarrow> string" where
  "type_name JNull = ''NoneType''"
| "type_name (JBool b) = ''bool''"
| "type_name (JInt n) = ''int''"
| "type_name (JFloat m e) = ''float''"
| "type_name (JStr s) = ''str''"
| "type_name (JList xs) = ''list''"
| "type_name (JDict d) = ''dict''"

definition no_attribute :: "json \<Rightarrow> string \<Rightarrow> exn" where
  "no_attribute v name =
     AttributeError ([CHR 0x27] @ type_name v @ [CHR 0x27] @ '' object has no attribute ''
                       @ [CHR 0x27] @ name @ [CHR 0x27])"

section \<open>The safety gate (ouroboros/safety.py)\<close>

text \<open>
  What the module calls but does not define is a parameter: the LLM client, the budget
  accountant, the JSON codec, the policy file and the two model names read from the
  environment. \<open>chat\<close> maps the model, the system message and the user message to the
  outcome of \<open>client.chat\<close>; the two calls of the gate never send the same system
  message, so two different outcomes are always expressible. A reply is the message
  dict and the usage dict; no usage is the empty dict. The arguments of a tool call are
  of any type \<open>'a\<close>: the gate only hands them to \<open>json.dumps\<close>, which may raise
  (a value it cannot encode, a circular or too deeply nested one), and so may the
  constructor of the client. Logging is left out.
\<close>

datatype chat_result = ChatRaises exn | ChatReturns dict dict

datatype effect =
    LLMCall string string string
  | BudgetUpdate dict

record 'a env =
  new_client :: "exn option"
  chat :: "string \<Rightarrow> string \<Rightarrow> string \<Rightarrow> chat_result"
  update_budget_from_usage :: "dict \<Rightarrow> exn option"
  json_loads :: "string \<Rightarrow> exn + json"
  json_dumps :: "'a \<Rightarrow> exn + string"
  py_repr :: "json \<Rightarrow> string"
  safety_md :: "string option"
  model_light :: string
  model_heavy :: string

text \<open>A computation: the effects it performed, and an exception or a value.\<close>

type_synonym 'a comp = "effect list \<times> (exn + 'a)"

definition try_except :: "'a comp \<Rightarrow> (exn \<Rightarrow> bool) \<Rightarrow> (exn \<Rightarrow> 'a) \<Rightarrow> 'a comp" where
  "try_except body matches handler =
     (case body of
        (tr, Inl e) \<Rightarrow> (if matches e then (tr, Inr (handler e)) else (tr, Inl e))
      | (tr, Inr v) \<Rightarrow> (tr, Inr v))"

definition fallback_prompt :: string where
  \<open>fallback_prompt = ''You are a security supervisor. Block any destructive commands or attempts to modify BIBLE.md. Respond with JSON: {"status": "SAFE"|"DANGEROUS", "reason": "..."}''\<close>

definition get_safety_prompt :: "'a env \<Rightarrow> string" where
  "get_safety_prompt env = (case safety_md env of Some s \<Rightarrow> s | None \<Rightarrow> fallback_prompt)"

definition build_check_prompt :: "'a env \<Rightarrow> string \<Rightarrow> 'a \<Rightarrow> exn + string" where
  "build_check_prompt env tool_name arguments =
     (case json_dumps env arguments of
        Inl e \<Rightarrow> Inl e
      | Inr args_json \<Rightarrow>
          Inr (''Proposed tool call:\<newline>Tool: '' @ tool_name @ ''\<newline>Arguments:\<newline>```json\<newline>''
                 @ args_json @ ''\<newline>```\<newline>\<newline>Is this safe?''))"

text \<open>
  The two statements between the test of the tool name and the first \<open>try\<close>:
  \<open>prompt = _build_check_prompt(tool_name, arguments)\<close> and \<open>client = LLMClient()\<close>.
  What they raise is not caught.
\<close>

definition prepare :: "'a env \<Rightarrow> string \<Rightarrow> 'a \<Rightarrow> exn + string" where
  "prepare env tool_name arguments =
     (case build_check_prompt env tool_name arguments of
        Inl e \<Rightarrow> Inl e
      | Inr prompt \<Rightarrow> (case new_client env of Some e \<Rightarrow> Inl e | None \<Rightarrow> Inr prompt))"

definition mutating_tools :: "string list" where
  "mutating_tools =
     [''run_shell'', ''claude_code_edit'', ''repo_write_commit'', ''repo_commit'', ''drive_write'']"

definition deep_suffix :: string where
  "deep_suffix = ''\<newline>Take a deep breath and think carefully. Is this actually malicious, or just a normal development command?''"

definition violation_mark :: string where
  "violation_mark = [CHR 0xE2, CHR 0x9A, CHR 0xA0, CHR 0xEF, CHR 0xB8, CHR 0x8F] @ '' SAFETY_VIOLATION''"

definition blocked_msg :: "string \<Rightarrow> string" where
  "blocked_msg heavy_reason =
     violation_mark @ '': The Safety Supervisor blocked this command.\<newline>Reason: '' @ heavy_reason
       @ ''\<newline>\<newline>You must find a different, safer approach to achieve your goal.''"

definition parse_failed_msg :: string where
  "parse_failed_msg = violation_mark @ '': Safety Supervisor failed to parse JSON.''"

definition check_failed_msg :: "exn \<Rightarrow> string" where
  "check_failed_msg e = violation_mark @ '': Safety check failed with error: '' @ exn_str e"

text \<open>\<open>text.replace("```json", "").replace("```", "").strip()\<close>; \<open>text\<close> is what the
  message holds, and only a string has \<open>replace\<close>.\<close>

definition clean_text :: "json \<Rightarrow> exn + string" where
  "clean_text text =
     (case text of
        JStr s \<Rightarrow> Inr (strip (replace_str ''```'' [] (replace_str ''```json'' [] s)))
      | _ \<Rightarrow> Inl (no_attribute text ''replace''))"

text \<open>\<open>result.get(key)\<close>: only a dict has \<open>get\<close>.\<close>

definition result_get :: "json \<Rightarrow> string \<Rightarrow> exn + json option" where
  "result_get result k =
     (case result of
        JDict d \<Rightarrow> Inr (map_of d k)
      | _ \<Rightarrow> Inl (no_attribute result ''get''))"

text \<open>The fast block either returns from \<open>check_safety\<close> or falls through to the deep one.\<close>

datatype 'a flow = Return 'a | Fallthrough

definition fast_parse :: "'a env \<Rightarrow> json \<Rightarrow> exn + (bool \<times> string) flow" where
  "fast_parse env text =
     (case clean_text text of
        Inl e \<Rightarrow> Inl e
      | Inr ct \<Rightarrow>
          (case json_loads env ct of
             Inl e \<Rightarrow> Inl e
           | Inr result \<Rightarrow>
               (case result_get result ''status'' of
                  Inl e \<Rightarrow> Inl e
                | Inr st \<Rightarrow>
                    (if st = Some (JStr ''SAFE'') then Inr (Return (True, []))
                     else Inr Fallthrough))))"

definition fast_body :: "'a env \<Rightarrow> string \<Rightarrow> (bool \<times> string) flow comp" where
  "fast_body env prompt =
     (let sys = get_safety_prompt env;
          called = [LLMCall (model_light env) sys prompt]
      in case chat env (model_light env) sys prompt of
           ChatRaises e \<Rightarrow> (called, Inl e)
         | ChatReturns msg usage \<Rightarrow>
             (let text = get_or msg ''content'' (JStr []);
                  parse = try_except ([], fast_parse env text) is_JSONDecodeError (\<lambda>e. Fallthrough)
              in if usage \<noteq> []
                 then (case update_budget_from_usage env usage of
                         Some e \<Rightarrow> (called @ [BudgetUpdate usage], Inl e)
                       | None \<Rightarrow> (called @ [BudgetUpdate usage] @ fst parse, snd parse))
                 else (called @ fst parse, snd parse)))"

definition fast_check :: "'a env \<Rightarrow> string \<Rightarrow> (bool \<times> string) flow comp" where
  "fast_check env prompt = try_except (fast_body env prompt) is_Exception (\<lambda>e. Fallthrough)"

definition deep_parse :: "'a env \<Rightarrow> json \<Rightarrow> exn + (bool \<times> string)" where
  "deep_parse env text =
     (case clean_text text of
        Inl e \<Rightarrow> Inl e
      | Inr ct \<Rightarrow>
          (case json_loads env ct of
             Inl e \<Rightarrow> Inl e
           | Inr result \<Rightarrow>
               (case result_get result ''status'' of
                  Inl e \<Rightarrow> Inl e
                | Inr st \<Rightarrow>
                    (if st = Some (JStr ''SAFE'') then Inr (True, [])
                     else (case result_get result ''reason'' of
                             Inl e \<Rightarrow> Inl e
                           | Inr r \<Rightarrow>
                               (let heavy_reason = (case r of Some v \<Rightarrow> v | None \<Rightarrow> JStr ''Unknown danger'')
                                in Inr (False, blocked_msg (py_str (py_repr env) heavy_reason))))))))"

definition deep_body :: "'a env \<Rightarrow> string \<Rightarrow> (bool \<times> string) comp" where
  "deep_body env prompt =
     (let sys = get_safety_prompt env @ deep_suffix;
          called = [LLMCall (model_heavy env) sys prompt]
      in case chat env (model_heavy env) sys prompt of
           ChatRaises e \<Rightarrow> (called, Inl e)
         | ChatReturns msg usage \<Rightarrow>
             (let text = get_or msg ''content'' (JStr []);
                  parse = try_except ([], deep_parse env text) is_JSONDecodeError
                            (\<lambda>e. (False, parse_failed_msg))
              in if usage \<noteq> []
                 then (case update_budget_from_usage env usage of
                         Some e \<Rightarrow> (called @ [BudgetUpdate usage], Inl e)
                       | None \<Rightarrow> (called @ [BudgetUpdate usage] @ fst parse, snd parse))
                 else (called @ fst parse, snd parse)))"

definition deep_check :: "'a env \<Rightarrow> string \<Rightarrow> (bool \<times> string) comp" where
  "deep_check env prompt =
     try_except (deep_body env prompt) is_Exception (\<lambda>e. (False, check_failed_msg e))"

definition check_safety :: "'a env \<Rightarrow> string \<Rightarrow> 'a \<Rightarrow> (bool \<times> string) comp" where
  "check_safety env tool_name arguments =
     (if tool_name \<notin> set mutating_tools then ([], Inr (True, []))
      else
        (case prepare env tool_name arguments of
           Inl e \<Rightarrow> ([], Inl e)
         | Inr prompt \<Rightarrow>
             (case fast_check env prompt of
                (tr1, Inl e) \<Rightarrow> (tr1, Inl e)
              | (tr1, Inr (Return r)) \<Rightarrow> (tr1, Inr r)
              | (tr1, Inr Fallthrough) \<Rightarrow>
                  (case deep_check env prompt of (tr2, r) \<Rightarrow> (tr1 @ tr2, r)))))"

subsection \<open>The protocol in the words of the specification\<close>

text \<open>
  What one exchange with a model comes to, as the specification names it: the reply
  parses to status \<open>SAFE\<close>; it parses to a dict with another status (\<open>DANGEROUS\<close>),
  whose reason is kept; it is not JSON; or something raised (the call, the budget
  update, or a reply that is no string or no dict).
\<close>

datatype outcome = Safe | Dangerous json | Unparseable | Raised exn

definition outcome_of :: "'a env \<Rightarrow> chat_result \<Rightarrow> outcome" where
  "outcome_of env r =
     (case r of
        ChatRaises e \<Rightarrow> Raised e
      | ChatReturns msg usage \<Rightarrow>
          (case (if usage \<noteq> [] then update_budget_from_usage env usage else None) of
             Some e \<Rightarrow> Raised e
           | None \<Rightarrow>
               (case clean_text (get_or msg ''content'' (JStr [])) of
                  Inl e \<Rightarrow> Raised e
                | Inr ct \<Rightarrow>
                    (case json_loads env ct of
                       Inl e \<Rightarrow> (if is_JSONDecodeError e then Unparseable else Raised e)
                     | Inr (JDict d) \<Rightarrow>
                         (if map_of d ''status'' = Some (JStr ''SAFE'') then Safe
                          else Dangerous (case map_of d ''reason'' of
                                            Some v \<Rightarrow> v
                                          | None \<Rightarrow> JStr ''Unknown danger''))
                     | Inr other \<Rightarrow> Raised (no_attribute other ''get'')))))"

text \<open>The two exchanges for a prompt, and the calls that carry them.\<close>

definition fast_reply :: "'a env \<Rightarrow> string \<Rightarrow> chat_result" where
  "fast_reply env prompt = chat env (model_light env) (get_safety_prompt env) prompt"

definition deep_reply :: "'a env \<Rightarrow> string \<Rightarrow> chat_result" where
  "deep_reply env prompt =
     chat env (model_heavy env) (get_safety_prompt env @ deep_suffix) prompt"

definition fast_call :: "'a env \<Rightarrow> string \<Rightarrow> effect" where
  "fast_call env prompt = LLMCall (model_light env) (get_safety_prompt env) prompt"

definition deep_call :: "'a env \<Rightarrow> string \<Rightarrow> effect" where
  "deep_call env prompt =
     LLMCall (model_heavy env) (get_safety_prompt env @ deep_suffix) prompt"

text \<open>
  The outcome of the fast and of the deep check of a tool call. There is none when the
  prompt could not be built or the client not constructed: then no check takes place.
\<close>

definition fast_outcome :: "'a env \<Rightarrow> string \<Rightarrow> 'a \<Rightarrow> outcome option" where
  "fast_outcome env tool_name arguments =
     (case prepare env tool_name arguments of
        Inl e \<Rightarrow> None
      | Inr prompt \<Rightarrow> Some (outcome_of env (fast_reply env prompt)))"

definition deep_outcome :: "'a env \<Rightarrow> string \<Rightarrow> 'a \<Rightarrow> outcome option" where
  "deep_outcome env tool_name arguments =
     (case prepare env tool_name arguments of
        Inl e \<Rightarrow> None
      | Inr prompt \<Rightarrow> Some (outcome_of env (deep_reply env prompt)))"

fun is_llm_call :: "effect \<Rightarrow> bool" where
  "is_llm_call (LLMCall m sys usr) = True"
| "is_llm_call (BudgetUpdate u) = False"

definition llm_calls :: "effect list \<Rightarrow> effect list" where
  "llm_calls tr = filter is_llm_call tr"

text \<open>The deep check's answer, by outcome.\<close>

definition deep_decision :: "'a env \<Rightarrow> outcome \<Rightarrow> bool \<times> string" where
  "deep_decision env oc =
     (case oc of
        Safe \<Rightarrow> (True, [])
      | Dangerous r \<Rightarrow> (False, blocked_msg (py_str (py_repr env) r))
      | Unparseable \<Rightarrow> (False, parse_failed_msg)
      | Raised e \<Rightarrow> (False, check_failed_msg e))"

text \<open>The mutating set as the specification lists it.\<close>

definition spec_mutating_tools :: "string list" where
  "spec_mutating_tools =
     [''run_shell'', ''code_edit'', ''repo_write_commit'', ''repo_commit'', ''drive_write'']"

subsection \<open>A test environment\<close>

text \<open>
  A decoder that knows two replies, a client that answers by model name, and an encoder
  with a recursion limit, as \<open>json.dumps\<close> has one.
\<close>

primrec nest :: "nat \<Rightarrow> json \<Rightarrow> json" where
  "nest 0 v = v"
| "nest (Suc n) v = JList [nest n v]"

primrec list_depth :: "json \<Rightarrow> nat" where
  "list_depth JNull = 0"
| "list_depth (JBool b) = 0"
| "list_depth (JInt n) = 0"
| "list_depth (JFloat m e) = 0"
| "list_depth (JStr s) = 0"
| "list_depth (JList xs) = Suc (fold max (map list_depth xs) 0)"
| "list_depth (JDict d) = 0"

definition test_dumps :: "dict \<Rightarrow> exn + string" where
  "test_dumps d =
     (if 900 < fold max (map (\<lambda>kv. list_depth (snd kv)) d) 0
      then Inl (OtherError ''maximum recursion depth exceeded while encoding a JSON object'')
      else Inr ''{}'')"

definition nested_args :: dict where
  "nested_args = [(''cmd'', nest 1000 (JStr ''x''))]"

definition test_loads :: "string \<Rightarrow> exn + json" where
  \<open>test_loads s =
     (if s = ''{"status": "SAFE"}'' then Inr (JDict [(''status'', JStr ''SAFE'')])
      else if s = ''{"status": "DANGEROUS", "reason": "rm -rf /"}''
      then Inr (JDict [(''status'', JStr ''DANGEROUS''), (''reason'', JStr ''rm -rf /'')])
      else if s = ''[]'' then Inr (JList [])
      else Inl (JSONDecodeError ''Expecting value''))\<close>

definition test_env :: "chat_result \<Rightarrow> chat_result \<Rightarrow> dict env" where
  "test_env fast deep =
     \<lparr>new_client = None,
      chat = (\<lambda>m sys usr. if m = ''light'' then fast else deep),
      update_budget_from_usage = (\<lambda>u. None),
      json_loads = test_loads,
      json_dumps = test_dumps,
      py_repr = (\<lambda>v. ''?''),
      safety_md = Some ''policy'',
      model_light = ''light'',
      model_heavy = ''heavy''\<rparr>"

definition test_prompt :: "string \<Rightarrow> string" where
  "test_prompt tool_name =
     ''Proposed tool call:\<newline>Tool: '' @ tool_name
       @ ''\<newline>Arguments:\<newline>```json\<newline>{}\<newline>```\<newline>\<newline>Is this safe?''"

definition says_safe :: chat_result where
  \<open>says_safe = ChatReturns [(''content'', JStr ''```json{"status": "SAFE"}```'')] [(''cost'', JInt 1)]\<close>

text \<open>The same reply between two no-break spaces (U+00A0).\<close>

definition says_safe_nbsp :: chat_result where
  \<open>says_safe_nbsp =
     ChatReturns [(''content'', JStr ([CHR 0xC2, CHR 0xA0] @ ''{"status": "SAFE"}''
                                      @ [CHR 0xC2, CHR 0xA0]))] []\<close>

text \<open>A reply that is JSON but no object.\<close>

definition says_list :: chat_result where
  "says_list = ChatReturns [(''content'', JStr ''[]'')] []"

definition says_dangerous :: chat_result where
  \<open>says_dangerous =
     ChatReturns [(''content'', JStr ''{"status": "DANGEROUS", "reason": "rm -rf /"}'')] []\<close>

definition says_garbage :: chat_result where
  "says_garbage = ChatReturns [(''content'', JStr ''I think it is fine'')] []"

definition call_fails :: chat_result where
  "call_fails = ChatRaises (OtherError ''timeout'')"

section \<open>The supervisor loop (app.py, run_supervisor)\<close>

text \<open>
  A pending task, with the fields the loop and the queue order read. \<open>task_type\<close> is
  what \<open>t.get("type")\<close> returns: \<^const>\<open>JNull\<close> when the key is absent.
\<close>

record task =
  task_id :: string
  task_type :: json
  priority :: int
  created_at :: int

text \<open>
  What the supervisor owns: the state document that \<open>load_state\<close> reads and
  \<open>save_state\<close> writes, the pending list, and everything else (workers, running set,
  repository) as \<open>rest\<close>.
\<close>

record 'w world =
  st_file :: dict
  PENDING :: "task list"
  rest :: 'w

datatype proc_status = Running | Exited int | Reexec

datatype event = Event string dict

datatype sup_effect =
    RotateChatLog
  | EnsureWorkersHealthy
  | DispatchEvent event
  | EnforceTaskTimeouts
  | EnqueueEvolutionIfNeeded
  | AssignTasks
  | PersistSnapshot string "task list"
  | GetUpdates int
  | LogChat string int int string
  | Send int string
  | KillWorkers
  | OsExit int
  | OsExecv
  | SafeRestart string string
  | QueueReviewTask string bool
  | ConsciousnessStart
  | ConsciousnessStop
  | ConsciousnessPause
  | InjectObservation string
  | AgentInjectMessage string
  | StartChatThread int string

record 'w sup =
  world :: "'w world"
  offset :: int
  proc :: proc_status
  trace :: "sup_effect list"

text \<open>
  The modules \<open>supervisor.*\<close> and \<open>ouroboros.consciousness\<close> are parameters: each
  collaborator is a function on the world it may change, and returns normally.
  \<open>send_with_budget\<close>, \<open>log_chat\<close>, \<open>kill_workers\<close> and the snapshot writer are
  recorded in the trace only; \<^const>\<open>Send\<close> does not keep the \<open>force_budget\<close> flag.
\<close>

record 'w senv =
  rotate_chat_log_if_needed :: "'w world \<Rightarrow> 'w world"
  ensure_workers_healthy :: "'w world \<Rightarrow> 'w world"
  dispatch_event :: "event \<Rightarrow> 'w world \<Rightarrow> 'w world"
  enforce_task_timeouts :: "'w world \<Rightarrow> 'w world"
  enqueue_evolution_task_if_needed :: "'w world \<Rightarrow> 'w world"
  assign_tasks :: "'w world \<Rightarrow> 'w world"
  safe_restart :: "string \<Rightarrow> string \<Rightarrow> 'w world \<Rightarrow> (bool \<times> string) \<times> 'w world"
  queue_review_task :: "string \<Rightarrow> bool \<Rightarrow> 'w world \<Rightarrow> 'w world"
  consciousness_start :: "'w \<Rightarrow> string \<times> 'w"
  consciousness_stop :: "'w \<Rightarrow> string \<times> 'w"
  consciousness_is_running :: "'w \<Rightarrow> bool"
  agent_busy :: "'w \<Rightarrow> bool"
  status_text :: "'w world \<Rightarrow> string"
  value_repr :: "json \<Rightarrow> string"

definition emit :: "sup_effect list \<Rightarrow> 'w sup \<Rightarrow> 'w sup" where
  "emit es s = s\<lparr>trace := trace s @ es\<rparr>"

definition call :: "('w world \<Rightarrow> 'w world) \<Rightarrow> sup_effect \<Rightarrow> 'w sup \<Rightarrow> 'w sup" where
  "call f e s = s\<lparr>world := f (world s), trace := trace s @ [e]\<rparr>"

definition save_state :: "dict \<Rightarrow> 'w sup \<Rightarrow> 'w sup" where
  "save_state st s = s\<lparr>world := (world s)\<lparr>st_file := st\<rparr>\<rparr>"

definition persist_queue_snapshot :: "string \<Rightarrow> 'w sup \<Rightarrow> 'w sup" where
  "persist_queue_snapshot reason s = emit [PersistSnapshot reason (PENDING (world s))] s"

text \<open>
  Modelled from the spec: \<open>sort_pending\<close> of \<open>supervisor/queue.py\<close> is not among the
  sources. The spec has the pending list re-sorted by (priority, created_at), smaller
  first; a stable sort, as Python's is.
\<close>

definition sort_pending :: "task list \<Rightarrow> task list" where
  "sort_pending ts = sort_key (\<lambda>t. (priority t, created_at t)) ts"

definition is_None :: "json option \<Rightarrow> bool" where
  "is_None v = (v = None \<or> v = Some JNull)"

definition owner_registered_msg :: string where
  "owner_registered_msg = [CHR 0xE2, CHR 0x9C, CHR 0x85] @ '' Owner registered. Ouroboros online.''"

definition panic_msg :: string where
  "panic_msg = [CHR 0xF0, CHR 0x9F, CHR 0x9B, CHR 0x91] @ '' PANIC: stopping everything now.''"

definition restarting_msg :: string where
  "restarting_msg = [CHR 0xE2, CHR 0x99, CHR 0xBB, CHR 0xEF, CHR 0xB8, CHR 0x8F] @ '' Restarting (soft).''"

definition restart_cancelled_msg :: "string \<Rightarrow> string" where
  "restart_cancelled_msg restart_msg =
     [CHR 0xE2, CHR 0x9A, CHR 0xA0, CHR 0xEF, CHR 0xB8, CHR 0x8F] @ '' Restart cancelled: '' @ restart_msg"

definition evolution_msg :: "string \<Rightarrow> string" where
  "evolution_msg state_str = [CHR 0xF0, CHR 0x9F, CHR 0xA7, CHR 0xAC] @ '' Evolution: '' @ state_str"

definition brain_msg :: "string \<Rightarrow> string" where
  "brain_msg result = [CHR 0xF0, CHR 0x9F, CHR 0xA7, CHR 0xA0] @ '' '' @ result"

text \<open>\<open>parts[1] if len(parts) > 1 else dflt\<close>\<close>

definition second_or :: "string list \<Rightarrow> string \<Rightarrow> string" where
  "second_or parts dflt = (case parts of a # b # r \<Rightarrow> b | _ \<Rightarrow> dflt)"

definition cmd_panic :: "int \<Rightarrow> 'w sup \<Rightarrow> 'w sup" where
  "cmd_panic chat_id s = (emit [Send chat_id panic_msg, KillWorkers, OsExit 1] s)\<lparr>proc := Exited 1\<rparr>"

definition cmd_restart :: "'w senv \<Rightarrow> int \<Rightarrow> 'w sup \<Rightarrow> 'w sup" where
  "cmd_restart env chat_id s =
     (let s1 = emit [Send chat_id restarting_msg, SafeRestart ''owner_restart'' ''rescue_and_reset''] s;
          ((ok, restart_msg), w) = safe_restart env ''owner_restart'' ''rescue_and_reset'' (world s1);
          s2 = s1\<lparr>world := w\<rparr>
      in if \<not> ok then emit [Send chat_id (restart_cancelled_msg restart_msg)] s2
         else (emit [KillWorkers, OsExecv] s2)\<lparr>proc := Reexec\<rparr>)"

definition cmd_review :: "'w senv \<Rightarrow> 'w sup \<Rightarrow> 'w sup" where
  "cmd_review env s =
     call (queue_review_task env ''owner:/review'' True) (QueueReviewTask ''owner:/review'' True) s"

definition cmd_evolve :: "'w senv \<Rightarrow> int \<Rightarrow> string \<Rightarrow> 'w sup \<Rightarrow> 'w sup" where
  "cmd_evolve env chat_id lowered s =
     (let parts = split lowered;
          action = second_or parts ''on'';
          turn_on = (action \<notin> set [''off'', ''stop'', ''0'']);
          st2 = st_file (world s);
          s1 = save_state (dict_set st2 ''evolution_mode_enabled'' (JBool turn_on)) s;
          s2 = (if \<not> turn_on
                then (let kept = filter (\<lambda>t. py_str (value_repr env) (task_type t) \<noteq> ''evolution'')
                                        (PENDING (world s1));
                          s1a = s1\<lparr>world := (world s1)\<lparr>PENDING := sort_pending kept\<rparr>\<rparr>
                      in persist_queue_snapshot ''evolve_off'' s1a)
                else s1);
          state_str = (if turn_on then ''ON'' else ''OFF'')
      in emit [Send chat_id (evolution_msg state_str)] s2)"

definition cmd_bg :: "'w senv \<Rightarrow> int \<Rightarrow> string \<Rightarrow> 'w sup \<Rightarrow> 'w sup" where
  "cmd_bg env chat_id lowered s =
     (let parts = split lowered;
          action = second_or parts ''status''
      in if action \<in> set [''start'', ''on'', ''1'']
         then (let (result, r) = consciousness_start env (rest (world s))
               in emit [ConsciousnessStart, Send chat_id (brain_msg result)]
                    (s\<lparr>world := (world s)\<lparr>rest := r\<rparr>\<rparr>))
         else if action \<in> set [''stop'', ''off'', ''0'']
         then (let (result, r) = consciousness_stop env (rest (world s))
               in emit [ConsciousnessStop, Send chat_id (brain_msg result)]
                    (s\<lparr>world := (world s)\<lparr>rest := r\<rparr>\<rparr>))
         else (let bg_status = (if consciousness_is_running env (rest (world s))
                                then ''running'' else ''stopped'')
               in emit [Send chat_id (brain_msg (''Background consciousness: '' @ bg_status))] s))"

definition cmd_status :: "'w senv \<Rightarrow> int \<Rightarrow> 'w sup \<Rightarrow> 'w sup" where
  "cmd_status env chat_id s = emit [Send chat_id (status_text env (world s))] s"

definition forward_to_agent :: "'w senv \<Rightarrow> int \<Rightarrow> string \<Rightarrow> 'w sup \<Rightarrow> 'w sup" where
  "forward_to_agent env chat_id text s =
     (let s1 = emit [InjectObservation (''Owner message: '' @ first_chars 100 text)] s
      in if agent_busy env (rest (world s1)) then emit [AgentInjectMessage text] s1
         else emit [ConsciousnessPause, StartChatThread chat_id text] s1)"

text \<open>The chain \<open>if lowered.startswith(...) ... elif ...\<close> and what follows it.\<close>

definition route_command :: "'w senv \<Rightarrow> int \<Rightarrow> string \<Rightarrow> 'w sup \<Rightarrow> 'w sup" where
  "route_command env chat_id text s =
     (let lowered = lower (strip text)
      in if startswith lowered ''/panic'' then cmd_panic chat_id s
         else if startswith lowered ''/restart'' then cmd_restart env chat_id s
         else if startswith lowered ''/review'' then cmd_review env s
         else if startswith lowered ''/evolve'' then cmd_evolve env chat_id lowered s
         else if startswith lowered ''/bg'' then cmd_bg env chat_id lowered s
         else if startswith lowered ''/status'' then cmd_status env chat_id s
         else forward_to_agent env chat_id text s)"

text \<open>
  The body of \<open>for upd in updates\<close>. An update is its \<open>update_id\<close> and its message
  dict (\<open>upd.get("message") or {}\<close>, so an absent message is the empty dict); \<open>now_iso\<close>
  is the clock reading taken for it.
\<close>

record update =
  update_id :: int
  message :: dict

definition handle_update :: "'w senv \<Rightarrow> string \<Rightarrow> update \<Rightarrow> 'w sup \<Rightarrow> 'w sup" where
  "handle_update env now_iso upd s0 =
     (let s = s0\<lparr>offset := update_id upd + 1\<rparr>;
          msg = message upd
      in if msg = [] then s
         else
           (let chat_id = 1;
                user_id = 1;
                text = py_str (value_repr env) (get_or msg ''text'' (JStr []));
                st = st_file (world s)
            in if is_None (map_of st ''owner_id'')
               then
                 (let st1 = dict_set st ''owner_id'' (JInt user_id);
                      st2 = dict_set st1 ''owner_chat_id'' (JInt chat_id);
                      st3 = dict_set st2 ''last_owner_message_at'' (JStr now_iso)
                  in emit [LogChat ''in'' chat_id user_id text, Send chat_id owner_registered_msg]
                       (save_state st3 s))
               else
                 (let s1 = emit [LogChat ''in'' chat_id user_id text] s;
                      s2 = save_state (dict_set st ''last_owner_message_at'' (JStr now_iso)) s1
                  in if text = [] then s2 else route_command env chat_id text s2)))"

text \<open>\<open>for upd in updates\<close>: \<open>os._exit\<close> and \<open>os.execv\<close> end the process, so nothing after
  them runs.\<close>

fun route_updates :: "'w senv \<Rightarrow> (string \<times> update) list \<Rightarrow> 'w sup \<Rightarrow> 'w sup" where
  "route_updates env [] s = s"
| "route_updates env ((now_iso, upd) # ups) s =
     (let s' = handle_update env now_iso upd s
      in if proc s' = Running then route_updates env ups s' else s')"

text \<open>
  One iteration of \<open>while True\<close>. \<open>evts\<close> is the sequence of events that
  \<open>event_q.get_nowait()\<close> hands out before it raises \<open>Empty\<close>, \<open>ups\<close> what
  \<open>get_updates\<close> returns, each update with its clock reading.
\<close>

definition drain_events :: "'w senv \<Rightarrow> event list \<Rightarrow> 'w sup \<Rightarrow> 'w sup" where
  "drain_events env evts s = fold (\<lambda>evt. call (dispatch_event env evt) (DispatchEvent evt)) evts s"

definition before_chat :: "'w senv \<Rightarrow> event list \<Rightarrow> 'w sup \<Rightarrow> 'w sup" where
  "before_chat env evts s =
     (let s1 = call (rotate_chat_log_if_needed env) RotateChatLog s;
          s2 = call (ensure_workers_healthy env) EnsureWorkersHealthy s1;
          s3 = drain_events env evts s2;
          s4 = call (enforce_task_timeouts env) EnforceTaskTimeouts s3;
          s5 = call (enqueue_evolution_task_if_needed env) EnqueueEvolutionIfNeeded s4;
          s6 = call (assign_tasks env) AssignTasks s5
      in persist_queue_snapshot ''main_loop'' s6)"

definition tick :: "'w senv \<Rightarrow> event list \<Rightarrow> (string \<times> update) list \<Rightarrow> 'w sup \<Rightarrow> 'w sup" where
  "tick env evts ups s =
     (let s7 = before_chat env evts s;
          s8 = emit [GetUpdates (offset s7)] s7
      in route_updates env ups s8)"

text \<open>The first iterations of the loop, one pair of inputs for each.\<close>

fun supervisor_loop ::
  "'w senv \<Rightarrow> (event list \<times> (string \<times> update) list) list \<Rightarrow> 'w sup \<Rightarrow> 'w sup" where
  "supervisor_loop env [] s = s"
| "supervisor_loop env ((evts, ups) # later) s =
     (if proc s = Running then supervisor_loop env later (tick env evts ups s) else s)"

subsection \<open>Notions the properties are stated with\<close>

text \<open>A task of type evolution, as the \<open>/evolve\<close> handler tests it.\<close>

definition is_evolution :: "'w senv \<Rightarrow> task \<Rightarrow> bool" where
  "is_evolution env t = (py_str (value_repr env) (task_type t) = ''evolution'')"

text \<open>The effects of the steps that come before the chat inbox is read, and the read itself.\<close>

fun is_phase :: "sup_effect \<Rightarrow> bool" where
  "is_phase RotateChatLog = True"
| "is_phase EnsureWorkersHealthy = True"
| "is_phase (DispatchEvent evt) = True"
| "is_phase EnforceTaskTimeouts = True"
| "is_phase EnqueueEvolutionIfNeeded = True"
| "is_phase AssignTasks = True"
| "is_phase (PersistSnapshot reason ts) = (reason = ''main_loop'')"
| "is_phase (GetUpdates n) = True"
| "is_phase e = False"

text \<open>The log entry of an inbound message.\<close>

fun is_log :: "sup_effect \<Rightarrow> bool" where
  "is_log (LogChat direction chat_id user_id text) = True"
| "is_log e = False"

text \<open>\<open>s'\<close> continues \<open>s\<close> with what a command handler or the chat agent does.\<close>

definition chat_only :: "'w sup \<Rightarrow> 'w sup \<Rightarrow> bool" where
  "chat_only s s' =
     (\<exists>es. trace s' = trace s @ es \<and> (\<forall>e \<in> set es. \<not> is_phase e \<and> \<not> is_log e))"

text \<open>The text of an update, and the log entries of the updates that carry a message.\<close>

definition text_of :: "'w senv \<Rightarrow> update \<Rightarrow> string" where
  "text_of env upd = py_str (value_repr env) (get_or (message upd) ''text'' (JStr []))"

definition logs_of :: "'w senv \<Rightarrow> (string \<times> update) list \<Rightarrow> sup_effect list" where
  "logs_of env ups =
     map (\<lambda>u. LogChat ''in'' 1 1 (text_of env (snd u))) (filter (\<lambda>u. message (snd u) \<noteq> []) ups)"

text \<open>The stamp that every message of the owner leaves in the state.\<close>

definition stamped :: "string \<Rightarrow> string \<Rightarrow> update \<Rightarrow> 'w sup \<Rightarrow> 'w sup" where
  "stamped text now_iso upd s =
     save_state (dict_set (st_file (world s)) ''last_owner_message_at'' (JStr now_iso))
       (emit [LogChat ''in'' 1 1 text] (s\<lparr>offset := update_id upd + 1\<rparr>))"

subsection \<open>A test supervisor\<close>

definition test_senv :: "bool \<Rightarrow> unit senv" where
  "test_senv restart_ok =
     \<lparr>rotate_chat_log_if_needed = (\<lambda>w. w),
      ensure_workers_healthy = (\<lambda>w. w),
      dispatch_event = (\<lambda>evt w. w),
      enforce_task_timeouts = (\<lambda>w. w),
      enqueue_evolution_task_if_needed = (\<lambda>w. w),
      assign_tasks = (\<lambda>w. w\<lparr>PENDING := tl (PENDING w)\<rparr>),
      safe_restart = (\<lambda>reason policy w. ((restart_ok, ''restart lock held''), w)),
      queue_review_task = (\<lambda>reason force w. w),
      consciousness_start = (\<lambda>r. (''started'', r)),
      consciousness_stop = (\<lambda>r. (''stopped'', r)),
      consciousness_is_running = (\<lambda>r. True),
      agent_busy = (\<lambda>r. False),
      status_text = (\<lambda>w. ''status''),
      value_repr = (\<lambda>v. ''?'')\<rparr>"

definition mk_task :: "string \<Rightarrow> string \<Rightarrow> int \<Rightarrow> int \<Rightarrow> task" where
  "mk_task i ty p c = \<lparr>task_id = i, task_type = JStr ty, priority = p, created_at = c\<rparr>"

definition test_pending :: "task list" where
  "test_pending =
     [mk_task ''a1'' ''evolution'' 1 10, mk_task ''b2'' ''review'' 2 11,
      mk_task ''c3'' ''evolution'' 1 12, mk_task ''d4'' ''chat'' 0 13,
      mk_task ''e5'' ''evolution'' 1 14]"

definition fresh_sup :: "unit sup" where
  "fresh_sup =
     \<lparr>world = \<lparr>st_file = [], PENDING = [], rest = ()\<rparr>,
      offset = 0, proc = Running, trace = []\<rparr>"

text \<open>No owner yet, evolution mode on and tasks pending.\<close>

definition unowned_sup :: "unit sup" where
  "unowned_sup =
     \<lparr>world = \<lparr>st_file = [(''evolution_mode_enabled'', JBool True)],
               PENDING = test_pending, rest = ()\<rparr>,
      offset = 0, proc = Running, trace = []\<rparr>"

definition owned_sup :: "unit sup" where
  "owned_sup =
     \<lparr>world = \<lparr>st_file = [(''owner_id'', JInt 1), (''owner_chat_id'', JInt 1),
                           (''evolution_mode_enabled'', JBool True)],
               PENDING = test_pending, rest = ()\<rparr>,
      offset = 0, proc = Running, trace = []\<rparr>"

text \<open>An update in the messenger's format, naming the chat it comes from.\<close>

definition msg_from :: "int \<Rightarrow> string \<Rightarrow> dict" where
  "msg_from cid text =
     [(''chat'', JDict [(''id'', JInt cid)]), (''from'', JDict [(''id'', JInt cid)]),
      (''text'', JStr text)]"

definition upd_from :: "int \<Rightarrow> int \<Rightarrow> string \<Rightarrow> update" where
  "upd_from uid cid text = \<lparr>update_id = uid, message = msg_from cid text\<rparr>"

section \<open>Properties of the safety gate\<close>

lemma no_attribute_not_decode: "\<not> is_JSONDecodeError (no_attribute v name)"
  by (simp add: no_attribute_def)

lemma fast_check_snd:
  "snd (fast_check env P) =
     Inr (if outcome_of env (fast_reply env P) = Safe then Return (True, []) else Fallthrough)"
  by (auto simp: fast_check_def fast_body_def fast_parse_def outcome_of_def Let_def try_except_def
      result_get_def is_Exception_def clean_text_def no_attribute_not_decode fast_reply_def
      split: chat_result.splits option.splits sum.splits json.splits exn.splits prod.splits)

lemma fast_check_calls: "llm_calls (fst (fast_check env P)) = [fast_call env P]"
  by (auto simp: fast_check_def fast_body_def Let_def try_except_def llm_calls_def
      is_Exception_def fast_call_def
      split: chat_result.splits option.splits sum.splits prod.splits)

lemma deep_check_snd:
  "snd (deep_check env P) = Inr (deep_decision env (outcome_of env (deep_reply env P)))"
  by (auto simp: deep_check_def deep_body_def deep_parse_def outcome_of_def Let_def try_except_def
      result_get_def is_Exception_def deep_decision_def clean_text_def no_attribute_not_decode
      deep_reply_def
      split: chat_result.splits option.splits sum.splits json.splits exn.splits prod.splits)

lemma deep_check_calls: "llm_calls (fst (deep_check env P)) = [deep_call env P]"
  by (auto simp: deep_check_def deep_body_def Let_def try_except_def llm_calls_def
      is_Exception_def deep_call_def
      split: chat_result.splits option.splits sum.splits prod.splits)

text \<open>When the prompt cannot be built or the client not constructed, the exception leaves
  the gate and no model is asked.\<close>

lemma check_safety_escape:
  "tool_name \<in> set mutating_tools \<Longrightarrow> prepare env tool_name arguments = Inl e \<Longrightarrow>
   check_safety env tool_name arguments = ([], Inl e)"
  by (simp add: check_safety_def)

text \<open>Otherwise the answer and the model calls follow from the outcomes of the two exchanges.\<close>

lemma check_safety_snd:
  "tool_name \<in> set mutating_tools \<Longrightarrow> prepare env tool_name arguments = Inr P \<Longrightarrow>
   snd (check_safety env tool_name arguments) =
     Inr (if outcome_of env (fast_reply env P) = Safe then (True, [])
          else deep_decision env (outcome_of env (deep_reply env P)))"
  using fast_check_snd [of env P] deep_check_snd [of env P]
  by (auto simp: check_safety_def split: prod.splits sum.splits flow.splits if_splits)

lemma check_safety_calls:
  "tool_name \<in> set mutating_tools \<Longrightarrow> prepare env tool_name arguments = Inr P \<Longrightarrow>
   llm_calls (fst (check_safety env tool_name arguments)) =
     (if outcome_of env (fast_reply env P) = Safe then [fast_call env P]
      else [fast_call env P, deep_call env P])"
  using fast_check_snd [of env P] fast_check_calls [of env P] deep_check_calls [of env P]
  by (auto simp: check_safety_def llm_calls_def
      split: prod.splits sum.splits flow.splits if_splits)

lemma startswith_append: "startswith (p @ s) p"
  by (simp add: startswith_def)

lemma violation_mark_nonempty: "violation_mark \<noteq> []"
  by (simp add: violation_mark_def)

lemma deep_decision_deny:
  "deep_decision env oc = (False, reason) \<Longrightarrow>
   startswith reason violation_mark \<and> reason \<noteq> [] \<and>
   ((\<exists>r. reason = blocked_msg r) \<or> reason = parse_failed_msg \<or> (\<exists>e. reason = check_failed_msg e))"
  using violation_mark_nonempty
  by (cases oc)
     (auto simp: deep_decision_def blocked_msg_def parse_failed_msg_def check_failed_msg_def
        startswith_append)

lemma deep_decision_cases:
  "deep_decision env oc = (True, []) \<or> (\<exists>reason. deep_decision env oc = (False, reason))"
  by (cases oc) (simp_all add: deep_decision_def)

lemma run_shell_mutating: "''run_shell'' \<in> set mutating_tools"
  by (simp add: mutating_tools_def)

text \<open>The test replies, classified.\<close>

lemma outcome_says_safe: "outcome_of (test_env f d) says_safe = Safe"
  by (simp add: outcome_of_def says_safe_def test_env_def test_loads_def clean_text_def
      get_or_def strip_def is_space_def seq_len_def whitespace_def)

lemma outcome_says_safe_nbsp: "outcome_of (test_env f d) says_safe_nbsp = Safe"
  by (simp add: outcome_of_def says_safe_nbsp_def test_env_def test_loads_def clean_text_def
      get_or_def strip_def is_space_def seq_len_def whitespace_def)

lemma outcome_says_dangerous:
  "outcome_of (test_env f d) says_dangerous = Dangerous (JStr ''rm -rf /'')"
  by (simp add: outcome_of_def says_dangerous_def test_env_def test_loads_def clean_text_def
      get_or_def strip_def is_space_def seq_len_def whitespace_def)

lemma outcome_says_garbage: "outcome_of (test_env f d) says_garbage = Unparseable"
  by (simp add: outcome_of_def says_garbage_def test_env_def test_loads_def clean_text_def
      get_or_def strip_def is_space_def seq_len_def whitespace_def)

lemma outcome_says_list:
  "outcome_of (test_env f d) says_list = Raised (no_attribute (JList []) ''get'')"
  by (simp add: outcome_of_def says_list_def test_env_def test_loads_def clean_text_def
      get_or_def strip_def is_space_def seq_len_def whitespace_def)

lemma outcome_call_fails: "outcome_of (test_env f d) call_fails = Raised (OtherError ''timeout'')"
  by (simp add: outcome_of_def call_fails_def)

lemma test_fast_reply: "fast_reply (test_env f d) P = f"
  by (simp add: fast_reply_def test_env_def)

lemma test_deep_reply: "deep_reply (test_env f d) P = d"
  by (simp add: deep_reply_def test_env_def)

lemma test_prepare: "prepare (test_env f d) tool_name [] = Inr (test_prompt tool_name)"
  by (simp add: prepare_def build_check_prompt_def test_env_def test_dumps_def test_prompt_def)

lemma test_fast_outcome:
  "fast_outcome (test_env f d) tool_name [] = Some (outcome_of (test_env f d) f)"
  by (simp add: fast_outcome_def test_prepare test_fast_reply)

lemma test_deep_outcome:
  "deep_outcome (test_env f d) tool_name [] = Some (outcome_of (test_env f d) d)"
  by (simp add: deep_outcome_def test_prepare test_deep_reply)

lemma list_depth_nest: "list_depth (nest n v) = n + list_depth v"
  by (induction n) simp_all

lemma test_prepare_nested:
  "prepare (test_env f d) tool_name nested_args
     = Inl (OtherError ''maximum recursion depth exceeded while encoding a JSON object'')"
  by (simp add: prepare_def build_check_prompt_def test_env_def test_dumps_def nested_args_def
      list_depth_nest)

text \<open>
  C1 (as amended). The gate applies to the tool names \<open>run_shell\<close>,
  \<open>claude_code_edit\<close>, \<open>repo_write_commit\<close>, \<open>repo_commit\<close> and \<open>drive_write\<close>: for
  every other tool name \<open>check_safety\<close> returns allow (\<open>True\<close> with the empty reason)
  and performs no LLM call and no budget update. A call of one of these five is never
  allowed without a check: whenever \<open>check_safety\<close> returns allow for it, a model was
  asked, and once the prompt is built and the client constructed the light model is
  asked first.
\<close>

theorem gate_covers_mutating_tools:
  "(tool_name \<notin> set mutating_tools \<longrightarrow>
      check_safety env tool_name arguments = ([], Inr (True, [])))
   \<and> (tool_name \<in> set mutating_tools \<longrightarrow>
      (\<forall>reason. snd (check_safety env tool_name arguments) = Inr (True, reason) \<longrightarrow>
         llm_calls (fst (check_safety env tool_name arguments)) \<noteq> [])
      \<and> (\<forall>prompt. prepare env tool_name arguments = Inr prompt \<longrightarrow>
         llm_calls (fst (check_safety env tool_name arguments)) \<noteq> []
         \<and> hd (llm_calls (fst (check_safety env tool_name arguments))) = fast_call env prompt))"
proof (cases "tool_name \<in> set mutating_tools")
  case False
  then show ?thesis by (simp add: check_safety_def)
next
  case True
  have b: "llm_calls (fst (check_safety env tool_name arguments)) \<noteq> []
         \<and> hd (llm_calls (fst (check_safety env tool_name arguments))) = fast_call env prompt"
    if "prepare env tool_name arguments = Inr prompt" for prompt
    using check_safety_calls [OF True that] by simp
  have a: "llm_calls (fst (check_safety env tool_name arguments)) \<noteq> []"
    if "snd (check_safety env tool_name arguments) = Inr (True, reason)" for reason
  proof (cases "prepare env tool_name arguments")
    case (Inl e)
    with that check_safety_escape [OF True Inl] show ?thesis by simp
  next
    case (Inr prompt)
    with b show ?thesis by blast
  qed
  from True a b show ?thesis by blast
qed

theorem gate_covers_mutating_tools_witness:
  "''read_file'' \<notin> set mutating_tools
   \<and> check_safety (test_env says_safe says_safe) ''read_file'' [] = ([], Inr (True, []))
   \<and> ''claude_code_edit'' \<in> set mutating_tools
   \<and> prepare (test_env says_safe says_safe) ''claude_code_edit'' []
       = Inr (test_prompt ''claude_code_edit'')
   \<and> hd (llm_calls (fst (check_safety (test_env says_safe says_safe) ''claude_code_edit'' [])))
       = fast_call (test_env says_safe says_safe) (test_prompt ''claude_code_edit'')"
  using gate_covers_mutating_tools [of "''read_file''" "test_env says_safe says_safe" "[]"]
        gate_covers_mutating_tools [of "''claude_code_edit''" "test_env says_safe says_safe" "[]"]
  by (simp add: mutating_tools_def test_prepare)

text \<open>
  C1 as the specification states it fails: \<open>code_edit\<close> is in the specification's set
  and is allowed without any check, even when both models would answer
  \<open>DANGEROUS\<close>; \<open>claude_code_edit\<close> is outside that set and is checked.
\<close>

theorem spec_tool_set_counterexample:
  "''code_edit'' \<in> set spec_mutating_tools
   \<and> check_safety (test_env says_dangerous says_dangerous) ''code_edit'' [] = ([], Inr (True, []))
   \<and> ''claude_code_edit'' \<notin> set spec_mutating_tools
   \<and> check_safety (test_env says_dangerous says_dangerous) ''claude_code_edit'' []
       \<noteq> ([], Inr (True, []))"
proof -
  have a: "''code_edit'' \<notin> set mutating_tools" by (simp add: mutating_tools_def)
  have b: "''claude_code_edit'' \<in> set mutating_tools" by (simp add: mutating_tools_def)
  have "llm_calls (fst (check_safety (test_env says_dangerous says_dangerous) ''claude_code_edit'' [])) \<noteq> []"
    using check_safety_calls [OF b test_prepare] by simp
  then have "check_safety (test_env says_dangerous says_dangerous) ''claude_code_edit'' []
       \<noteq> ([], Inr (True, []))"
    by (auto simp: llm_calls_def)
  then show ?thesis using a by (simp add: spec_mutating_tools_def check_safety_def)
qed

text \<open>
  C2. For a mutating tool: when the fast check parses to \<open>SAFE\<close> the gate allows and the
  light model is the only one asked; on any other outcome of the fast check (another
  status, no JSON, an exception) the heavy model is asked next, and the outcome of the
  deep check decides: \<open>SAFE\<close> allows, another status denies with the model's reason, a
  reply that is no JSON denies, and so does anything raised. A deny is never returned
  without the deep call.
\<close>

theorem two_tier_escalation:
  assumes "tool_name \<in> set mutating_tools"
  shows
   "(fast_outcome env tool_name arguments = Some Safe \<longrightarrow>
       snd (check_safety env tool_name arguments) = Inr (True, [])
       \<and> (\<forall>prompt. prepare env tool_name arguments = Inr prompt \<longrightarrow>
            llm_calls (fst (check_safety env tool_name arguments)) = [fast_call env prompt]))
    \<and> (\<forall>oc. fast_outcome env tool_name arguments = Some oc \<and> oc \<noteq> Safe \<longrightarrow>
       (\<forall>prompt. prepare env tool_name arguments = Inr prompt \<longrightarrow>
          llm_calls (fst (check_safety env tool_name arguments))
            = [fast_call env prompt, deep_call env prompt])
       \<and> (deep_outcome env tool_name arguments = Some Safe \<longrightarrow>
            snd (check_safety env tool_name arguments) = Inr (True, []))
       \<and> (\<forall>v. deep_outcome env tool_name arguments = Some (Dangerous v) \<longrightarrow>
            snd (check_safety env tool_name arguments)
              = Inr (False, blocked_msg (py_str (py_repr env) v)))
       \<and> (deep_outcome env tool_name arguments = Some Unparseable \<longrightarrow>
            snd (check_safety env tool_name arguments) = Inr (False, parse_failed_msg))
       \<and> (\<forall>e. deep_outcome env tool_name arguments = Some (Raised e) \<longrightarrow>
            snd (check_safety env tool_name arguments) = Inr (False, check_failed_msg e)))
    \<and> (\<forall>reason. snd (check_safety env tool_name arguments) = Inr (False, reason) \<longrightarrow>
         (\<exists>prompt. prepare env tool_name arguments = Inr prompt
            \<and> deep_call env prompt \<in> set (fst (check_safety env tool_name arguments))))"
proof (cases "prepare env tool_name arguments")
  case (Inl e)
  then have "fast_outcome env tool_name arguments = None"
    by (simp add: fast_outcome_def)
  then show ?thesis
    using check_safety_escape [OF assms Inl] by simp
next
  case (Inr P)
  let ?r = "check_safety env tool_name arguments"
  note s = check_safety_snd [OF assms Inr]
  note c = check_safety_calls [OF assms Inr]
  have fo: "fast_outcome env tool_name arguments = Some (outcome_of env (fast_reply env P))"
    by (simp add: fast_outcome_def Inr)
  have dp: "deep_outcome env tool_name arguments = Some (outcome_of env (deep_reply env P))"
    by (simp add: deep_outcome_def Inr)
  have deny: "deep_call env P \<in> set (fst ?r)"
    if "snd ?r = Inr (False, reason)" for reason
  proof -
    from that s have "outcome_of env (fast_reply env P) \<noteq> Safe"
      by (auto split: if_splits)
    with c have "deep_call env P \<in> set (llm_calls (fst ?r))" by simp
    then show ?thesis by (simp add: llm_calls_def)
  qed
  show ?thesis
    using s c deny by (auto simp: deep_decision_def fo dp Inr)
qed

theorem two_tier_escalation_witness:
  "''run_shell'' \<in> set mutating_tools
   \<and> fast_outcome (test_env says_safe call_fails) ''run_shell'' [] = Some Safe
   \<and> snd (check_safety (test_env says_safe call_fails) ''run_shell'' []) = Inr (True, [])
   \<and> llm_calls (fst (check_safety (test_env says_safe call_fails) ''run_shell'' []))
       = [fast_call (test_env says_safe call_fails) (test_prompt ''run_shell'')]
   \<and> snd (check_safety (test_env says_safe_nbsp call_fails) ''run_shell'' []) = Inr (True, [])
   \<and> llm_calls (fst (check_safety (test_env says_dangerous says_safe) ''run_shell'' []))
       = [fast_call (test_env says_dangerous says_safe) (test_prompt ''run_shell''),
          deep_call (test_env says_dangerous says_safe) (test_prompt ''run_shell'')]
   \<and> snd (check_safety (test_env says_dangerous says_safe) ''run_shell'' []) = Inr (True, [])
   \<and> snd (check_safety (test_env call_fails says_dangerous) ''run_shell'' [])
       = Inr (False, blocked_msg ''rm -rf /'')
   \<and> snd (check_safety (test_env says_garbage says_garbage) ''run_shell'' [])
       = Inr (False, parse_failed_msg)
   \<and> snd (check_safety (test_env says_list says_list) ''run_shell'' [])
       = Inr (False, check_failed_msg (no_attribute (JList []) ''get''))"
  using two_tier_escalation [OF run_shell_mutating, of "test_env says_safe call_fails" "[]"]
        two_tier_escalation [OF run_shell_mutating, of "test_env says_safe_nbsp call_fails" "[]"]
        two_tier_escalation [OF run_shell_mutating, of "test_env says_dangerous says_safe" "[]"]
        two_tier_escalation [OF run_shell_mutating, of "test_env call_fails says_dangerous" "[]"]
        two_tier_escalation [OF run_shell_mutating, of "test_env says_garbage says_garbage" "[]"]
        two_tier_escalation [OF run_shell_mutating, of "test_env says_list says_list" "[]"]
  by (simp add: run_shell_mutating test_fast_outcome test_deep_outcome test_prepare
      outcome_says_safe outcome_says_safe_nbsp outcome_says_dangerous outcome_says_garbage
      outcome_says_list outcome_call_fails py_str_def)

text \<open>
  C3 does not hold of the code. The prompt is built, with \<open>json.dumps\<close>, and the client
  is constructed before the first \<open>try\<close>: for a mutating tool, what either of them
  raises leaves \<open>check_safety\<close>, which then returns neither allow nor deny and asks no
  model.
\<close>

theorem check_safety_raises:
  "tool_name \<in> set mutating_tools \<Longrightarrow> json_dumps env arguments = Inl e \<Longrightarrow>
   check_safety env tool_name arguments = ([], Inl e)"
  by (simp add: check_safety_def prepare_def build_check_prompt_def)

theorem check_safety_raises_witness:
  "''run_shell'' \<in> set mutating_tools
   \<and> json_dumps (test_env says_safe says_safe) nested_args
       = Inl (OtherError ''maximum recursion depth exceeded while encoding a JSON object'')
   \<and> check_safety (test_env says_safe says_safe) ''run_shell'' nested_args
       = ([], Inl (OtherError ''maximum recursion depth exceeded while encoding a JSON object''))"
proof -
  have d: "json_dumps (test_env says_safe says_safe) nested_args
       = Inl (OtherError ''maximum recursion depth exceeded while encoding a JSON object'')"
    by (simp add: test_env_def test_dumps_def nested_args_def list_depth_nest)
  from check_safety_raises [OF run_shell_mutating d] d show ?thesis
    by (simp add: run_shell_mutating)
qed

text \<open>
  C6. Whenever \<open>check_safety\<close> denies, the reason is not empty and begins with the
  warning sign and \<open>SAFETY_VIOLATION\<close>; it is one of the three deny messages (blocked
  with the model's reason, failed to parse, failed with an error).
\<close>

theorem deny_reason_marked:
  "snd (check_safety env tool_name arguments) = Inr (False, reason) \<Longrightarrow>
   reason \<noteq> [] \<and> startswith reason violation_mark
   \<and> ((\<exists>r. reason = blocked_msg r) \<or> reason = parse_failed_msg \<or> (\<exists>e. reason = check_failed_msg e))"
proof (cases "tool_name \<in> set mutating_tools")
  case False
  assume "snd (check_safety env tool_name arguments) = Inr (False, reason)"
  with False show ?thesis by (simp add: check_safety_def)
next
  case True
  assume d: "snd (check_safety env tool_name arguments) = Inr (False, reason)"
  show ?thesis
  proof (cases "prepare env tool_name arguments")
    case (Inl e)
    with d check_safety_escape [OF True Inl] show ?thesis by simp
  next
    case (Inr P)
    from d check_safety_snd [OF True Inr]
    have "deep_decision env (outcome_of env (deep_reply env P)) = (False, reason)"
      by (auto split: if_splits)
    from deep_decision_deny [OF this] show ?thesis by blast
  qed
qed

theorem deny_reason_marked_witness:
  "snd (check_safety (test_env call_fails call_fails) ''run_shell'' [])
     = Inr (False, check_failed_msg (OtherError ''timeout''))
   \<and> check_failed_msg (OtherError ''timeout'') \<noteq> []
   \<and> startswith (check_failed_msg (OtherError ''timeout'')) violation_mark"
proof -
  have d: "snd (check_safety (test_env call_fails call_fails) ''run_shell'' [])
     = Inr (False, check_failed_msg (OtherError ''timeout''))"
    by (simp add: check_safety_snd [OF run_shell_mutating test_prepare] test_fast_reply
        test_deep_reply outcome_call_fails deep_decision_def)
  from deny_reason_marked [OF d] d show ?thesis by simp
qed

section \<open>Properties of the supervisor loop\<close>

lemma map_of_dict_set: "map_of (dict_set d k v) = (map_of d)(k \<mapsto> v)"
  by (induction d k v rule: dict_set.induct) (auto simp: fun_eq_iff)

lemma startswith_shorter:
  assumes "startswith s p" and "take n p \<noteq> q" and "length q = n" and "n \<le> length p"
  shows "\<not> startswith s q"
proof
  assume "startswith s q"
  then have q: "take n s = q" using assms(3) by (simp add: startswith_def)
  from assms(1) have "take (length p) s = p" by (simp add: startswith_def)
  then have "take n p = take n (take (length p) s)" by simp
  also have "\<dots> = take n s" using assms(4) by (simp add: min_absorb1)
  finally show False using q assms(2) by simp
qed

lemma startswith_nonempty: "startswith s p \<Longrightarrow> p \<noteq> [] \<Longrightarrow> s \<noteq> []"
  by (auto simp: startswith_def)

lemma startswith_take: "startswith s p \<Longrightarrow> startswith s (take n p)"
proof -
  assume "startswith s p"
  then have p: "take (length p) s = p" by (simp add: startswith_def)
  have "take (min (length p) n) s = take (min (length p) n) (take (length p) s)"
    by (simp add: min_def)
  also have "\<dots> = take (min (length p) n) p" by (simp add: p)
  also have "\<dots> = take n p" by (cases "n \<le> length p") (simp_all add: min_def)
  finally show ?thesis by (simp add: startswith_def)
qed

lemma concat_chars_of: "concat (chars_of s) = s"
  by (induction s rule: chars_of.induct) simp_all

lemma lower_strip_nonempty: "lower (strip text) \<noteq> [] \<Longrightarrow> text \<noteq> []"
  by (auto simp: lower_def strip_def)

text \<open>Once an owner is recorded, a message with text is logged, stamped and routed.\<close>

lemma handle_update_owner:
  assumes "\<not> is_None (map_of (st_file (world s)) ''owner_id'')"
    and "message upd \<noteq> []"
    and "py_str (value_repr env) (get_or (message upd) ''text'' (JStr [])) = text"
    and "text \<noteq> []"
  shows "handle_update env now_iso upd s =
     route_command env 1 text
       (save_state (dict_set (st_file (world s)) ''last_owner_message_at'' (JStr now_iso))
          (emit [LogChat ''in'' 1 1 text] (s\<lparr>offset := update_id upd + 1\<rparr>)))"
  using assms by (simp add: handle_update_def Let_def emit_def)

lemma handle_update_owner_empty:
  assumes "\<not> is_None (map_of (st_file (world s)) ''owner_id'')"
    and "message upd \<noteq> []"
    and "py_str (value_repr env) (get_or (message upd) ''text'' (JStr [])) = []"
  shows "handle_update env now_iso upd s =
       save_state (dict_set (st_file (world s)) ''last_owner_message_at'' (JStr now_iso))
          (emit [LogChat ''in'' 1 1 []] (s\<lparr>offset := update_id upd + 1\<rparr>))"
  using assms by (simp add: handle_update_def Let_def emit_def)

subsection \<open>Routing adds no loop step and no log entry to the trace\<close>

lemma chat_only_refl: "chat_only s s"
  by (simp add: chat_only_def)

lemma chat_only_trans: "chat_only s s' \<Longrightarrow> chat_only s' s'' \<Longrightarrow> chat_only s s''"
  by (fastforce simp: chat_only_def)

lemma chat_only_trace: "trace s' = trace s \<Longrightarrow> chat_only s' s'' \<Longrightarrow> chat_only s s''"
  by (simp add: chat_only_def)

lemma cmd_panic_chat_only: "chat_only s (cmd_panic c s)"
  by (simp add: chat_only_def cmd_panic_def emit_def)

lemma cmd_restart_chat_only: "chat_only s (cmd_restart env c s)"
  by (auto simp: chat_only_def cmd_restart_def emit_def Let_def split: prod.splits)

lemma cmd_review_chat_only: "chat_only s (cmd_review env s)"
  by (simp add: chat_only_def cmd_review_def call_def)

lemma cmd_evolve_chat_only: "chat_only s (cmd_evolve env c lowered s)"
  by (simp add: chat_only_def cmd_evolve_def emit_def save_state_def persist_queue_snapshot_def
      Let_def)

lemma cmd_bg_chat_only: "chat_only s (cmd_bg env c lowered s)"
  by (auto simp: chat_only_def cmd_bg_def emit_def Let_def split: prod.splits)

lemma cmd_status_chat_only: "chat_only s (cmd_status env c s)"
  by (simp add: chat_only_def cmd_status_def emit_def)

lemma forward_to_agent_chat_only: "chat_only s (forward_to_agent env c text s)"
  by (simp add: chat_only_def forward_to_agent_def emit_def Let_def)

lemma route_command_chat_only: "chat_only s (route_command env c text s)"
  by (simp add: route_command_def Let_def cmd_panic_chat_only cmd_restart_chat_only
      cmd_review_chat_only cmd_evolve_chat_only cmd_bg_chat_only cmd_status_chat_only
      forward_to_agent_chat_only)

text \<open>An update with a message is logged once; the rest is the work of the handlers.\<close>

lemma handle_update_trace:
  "\<exists>es. trace (handle_update env now_iso upd s) = trace s @ logs_of env [(now_iso, upd)] @ es
        \<and> (\<forall>e \<in> set es. \<not> is_phase e \<and> \<not> is_log e)"
proof (cases "message upd = []")
  case True
  then show ?thesis by (simp add: handle_update_def Let_def logs_of_def)
next
  case m: False
  let ?text = "py_str (value_repr env) (get_or (message upd) ''text'' (JStr []))"
  have l: "logs_of env [(now_iso, upd)] = [LogChat ''in'' 1 1 ?text]"
    using m by (simp add: logs_of_def text_of_def)
  show ?thesis
  proof (cases "is_None (map_of (st_file (world s)) ''owner_id'')")
    case True
    with m have "trace (handle_update env now_iso upd s)
        = trace s @ [LogChat ''in'' 1 1 ?text] @ [Send 1 owner_registered_msg]"
      by (simp add: handle_update_def Let_def emit_def save_state_def)
    then show ?thesis by (simp add: l)
  next
    case o: False
    show ?thesis
    proof (cases "?text = []")
      case True
      from handle_update_owner_empty [OF o m True]
      have "trace (handle_update env now_iso upd s) = trace s @ [LogChat ''in'' 1 1 ?text] @ []"
        by (simp add: emit_def save_state_def True)
      then show ?thesis by (simp add: l)
    next
      case False
      let ?s2 = "save_state (dict_set (st_file (world s)) ''last_owner_message_at'' (JStr now_iso))
                   (emit [LogChat ''in'' 1 1 ?text] (s\<lparr>offset := update_id upd + 1\<rparr>))"
      have h: "handle_update env now_iso upd s = route_command env 1 ?text ?s2"
        using handle_update_owner [OF o m refl False] .
      have "chat_only ?s2 (route_command env 1 ?text ?s2)"
        by (rule route_command_chat_only)
      then obtain es where "trace (route_command env 1 ?text ?s2) = trace ?s2 @ es"
          and "\<forall>e \<in> set es. \<not> is_phase e \<and> \<not> is_log e"
        by (auto simp: chat_only_def)
      then show ?thesis
        by (simp add: h l emit_def save_state_def)
    qed
  qed
qed

lemma logs_of_not_phase: "e \<in> set (logs_of env ups) \<Longrightarrow> \<not> is_phase e \<and> is_log e"
  by (auto simp: logs_of_def)

lemma filter_log_logs_of: "filter is_log (logs_of env ups) = logs_of env ups"
  by (simp add: logs_of_def filter_map comp_def)

lemma logs_of_Cons: "logs_of env (u # ups) = logs_of env [u] @ logs_of env ups"
  by (simp add: logs_of_def)

text \<open>
  The batch: the updates are handled in order up to the first that ends the process, all
  of them when the process is still running at the end.
\<close>

lemma route_updates_trace:
  "\<exists>es n. trace (route_updates env ups s) = trace s @ es
        \<and> (\<forall>e \<in> set es. \<not> is_phase e)
        \<and> n \<le> length ups \<and> filter is_log es = logs_of env (take n ups)
        \<and> (proc (route_updates env ups s) = Running \<and> proc s = Running \<longrightarrow> n = length ups)"
proof (induction ups arbitrary: s)
  case Nil
  show ?case by (simp add: logs_of_def)
next
  case (Cons u ups)
  obtain now_iso upd where u: "u = (now_iso, upd)" by (cases u)
  let ?s1 = "handle_update env now_iso upd s"
  obtain es1 where t1: "trace ?s1 = trace s @ logs_of env [u] @ es1"
      and r1: "\<forall>e \<in> set es1. \<not> is_phase e \<and> \<not> is_log e"
    using handle_update_trace [of env now_iso upd s] u by blast
  have f1: "filter is_log (logs_of env [u] @ es1) = logs_of env [u]"
    using r1 by (simp add: filter_log_logs_of filter_empty_conv)
  have p1: "\<forall>e \<in> set (logs_of env [u] @ es1). \<not> is_phase e"
    using r1 logs_of_not_phase [of _ env "[u]"] by auto
  show ?case
  proof (cases "proc ?s1 = Running")
    case False
    then have "route_updates env (u # ups) s = ?s1" by (simp add: u Let_def)
    moreover have "take 1 (u # ups) = [u]" by simp
    ultimately show ?thesis
      using t1 p1 f1 False
      by (intro exI [of _ "logs_of env [u] @ es1"] exI [of _ 1]) simp
  next
    case True
    then have e: "route_updates env (u # ups) s = route_updates env ups ?s1"
      by (simp add: u Let_def)
    obtain es n where t: "trace (route_updates env ups ?s1) = trace ?s1 @ es"
        and p: "\<forall>e \<in> set es. \<not> is_phase e"
        and n: "n \<le> length ups" and f: "filter is_log es = logs_of env (take n ups)"
        and a: "proc (route_updates env ups ?s1) = Running \<and> proc ?s1 = Running \<longrightarrow> n = length ups"
      using Cons.IH [of ?s1] by blast
    have "filter is_log ((logs_of env [u] @ es1) @ es) = logs_of env (take (Suc n) (u # ups))"
      using f1 f logs_of_Cons [of env u "take n ups"] by simp
    then show ?thesis
      using t t1 p p1 n a True
      by (intro exI [of _ "(logs_of env [u] @ es1) @ es"] exI [of _ "Suc n"]) (auto simp: e)
  qed
qed

lemma fold_stopped:
  "proc s \<noteq> Running \<Longrightarrow>
   fold (\<lambda>u st. if proc st = Running then handle_update env (fst u) (snd u) st else st) ups s = s"
  by (induction ups) simp_all

lemma route_updates_fold:
  "proc s = Running \<Longrightarrow>
   route_updates env ups s =
     fold (\<lambda>u st. if proc st = Running then handle_update env (fst u) (snd u) st else st) ups s"
proof (induction ups arbitrary: s)
  case Nil
  show ?case by simp
next
  case (Cons u ups)
  obtain now_iso upd where u: "u = (now_iso, upd)" by (cases u)
  show ?case
  proof (cases "proc (handle_update env now_iso upd s) = Running")
    case True
    with Cons show ?thesis by (simp add: u Let_def)
  next
    case False
    with Cons.prems show ?thesis by (simp add: u Let_def fold_stopped)
  qed
qed

subsection \<open>The steps before the chat inbox\<close>

lemma drain_events_effect:
  "trace (drain_events env evts s) = trace s @ map DispatchEvent evts
   \<and> world (drain_events env evts s) = fold (dispatch_event env) evts (world s)
   \<and> offset (drain_events env evts s) = offset s
   \<and> proc (drain_events env evts s) = proc s"
proof (induction evts arbitrary: s)
  case Nil
  show ?case by (simp add: drain_events_def)
next
  case (Cons evt evts)
  have "drain_events env (evt # evts) s
          = drain_events env evts (call (dispatch_event env evt) (DispatchEvent evt) s)"
    by (simp add: drain_events_def)
  then show ?case
    using Cons.IH [of "call (dispatch_event env evt) (DispatchEvent evt) s"]
    by (simp add: call_def)
qed

lemma before_chat_world:
  "world (before_chat env evts s) =
     assign_tasks env (enqueue_evolution_task_if_needed env (enforce_task_timeouts env
       (fold (dispatch_event env) evts
          (ensure_workers_healthy env (rotate_chat_log_if_needed env (world s))))))"
  by (simp add: before_chat_def Let_def call_def persist_queue_snapshot_def emit_def
      drain_events_effect)

lemma before_chat_trace:
  "trace (before_chat env evts s) =
     trace s @ [RotateChatLog, EnsureWorkersHealthy] @ map DispatchEvent evts @
       [EnforceTaskTimeouts, EnqueueEvolutionIfNeeded, AssignTasks,
        PersistSnapshot ''main_loop'' (PENDING (world (before_chat env evts s)))]"
  by (simp add: before_chat_def Let_def call_def persist_queue_snapshot_def emit_def
      drain_events_effect)

lemma before_chat_offset: "offset (before_chat env evts s) = offset s"
  by (simp add: before_chat_def Let_def call_def persist_queue_snapshot_def emit_def
      drain_events_effect)

lemma before_chat_proc: "proc (before_chat env evts s) = proc s"
  by (simp add: before_chat_def Let_def call_def persist_queue_snapshot_def emit_def
      drain_events_effect)

subsection \<open>Test inputs, evaluated\<close>

lemma owned_sup_has_owner: "\<not> is_None (map_of (st_file (world owned_sup)) ''owner_id'')"
  by (simp add: owned_sup_def is_None_def)

lemma fresh_sup_no_owner: "is_None (map_of (st_file (world fresh_sup)) ''owner_id'')"
  by (simp add: fresh_sup_def is_None_def)

lemma upd_from_message: "message (upd_from uid cid text) \<noteq> []"
  by (simp add: upd_from_def msg_from_def)

lemma upd_from_text:
  "py_str (value_repr env) (get_or (message (upd_from uid cid text)) ''text'' (JStr [])) = text"
  by (simp add: upd_from_def msg_from_def get_or_def py_str_def)

subsection \<open>First contact\<close>

text \<open>
  C10. With no owner recorded, an update that carries a message does exactly this: the
  offset moves on, the owner (id 1, chat 1) and the time are written to the state, the
  message is logged and the welcome is sent. Whatever the text is, also \<open>/panic\<close> or
  \<open>/restart\<close>, nothing else happens: no worker is killed, the process keeps running,
  nothing is passed to the consciousness or the chat agent.
\<close>

theorem first_contact_only_registers:
  assumes "is_None (map_of (st_file (world s)) ''owner_id'')"
    and "message upd \<noteq> []"
  shows "handle_update env now_iso upd s =
     s\<lparr>offset := update_id upd + 1,
       world := (world s)\<lparr>st_file :=
         dict_set (dict_set (dict_set (st_file (world s)) ''owner_id'' (JInt 1))
                     ''owner_chat_id'' (JInt 1)) ''last_owner_message_at'' (JStr now_iso)\<rparr>,
       trace := trace s @
         [LogChat ''in'' 1 1 (py_str (value_repr env) (get_or (message upd) ''text'' (JStr []))),
          Send 1 owner_registered_msg]\<rparr>"
  using assms by (simp add: handle_update_def Let_def emit_def save_state_def)

theorem first_contact_only_registers_witness:
  "is_None (map_of (st_file (world fresh_sup)) ''owner_id'')
   \<and> message (upd_from 7 100 ''/panic'') \<noteq> []
   \<and> trace (handle_update (test_senv True) ''t1'' (upd_from 7 100 ''/panic'') fresh_sup)
       = [LogChat ''in'' 1 1 ''/panic'', Send 1 owner_registered_msg]
   \<and> proc (handle_update (test_senv True) ''t1'' (upd_from 7 100 ''/panic'') fresh_sup) = Running
   \<and> st_file (world (handle_update (test_senv True) ''t1'' (upd_from 7 100 ''/panic'') fresh_sup))
       = [(''owner_id'', JInt 1), (''owner_chat_id'', JInt 1),
          (''last_owner_message_at'', JStr ''t1'')]"
proof -
  have m: "message (upd_from 7 100 ''/panic'') \<noteq> []" by (rule upd_from_message)
  note w = first_contact_only_registers [OF fresh_sup_no_owner m,
             where env = "test_senv True" and now_iso = "''t1''"]
  show ?thesis
    using w by (simp add: fresh_sup_no_owner m upd_from_text) (simp add: fresh_sup_def)
qed

subsection \<open>Commands\<close>

text \<open>
  C8 as the specification states it fails: on a fresh install a first message
  \<open>/PANIC\<close> only registers the owner. No warning is sent, no worker is killed and the
  process keeps running.
\<close>

theorem panic_first_contact_counterexample:
  "is_None (map_of (st_file (world fresh_sup)) ''owner_id'')
   \<and> startswith (lower (strip ''/PANIC'')) ''/panic''
   \<and> trace (handle_update (test_senv True) ''t1'' (upd_from 7 1 ''/PANIC'') fresh_sup)
       = [LogChat ''in'' 1 1 ''/PANIC'', Send 1 owner_registered_msg]
   \<and> proc (handle_update (test_senv True) ''t1'' (upd_from 7 1 ''/PANIC'') fresh_sup) = Running"
  by (simp add: handle_update_def Let_def emit_def save_state_def fresh_sup_def upd_from_def
      msg_from_def test_senv_def is_None_def get_or_def py_str_def startswith_def lower_def
      strip_def is_space_def lower_char_def seq_len_def whitespace_def)

text \<open>
  C8 (as amended). Once an owner is recorded, a message whose text, stripped and
  lowered, starts with \<open>/panic\<close> is logged, then the warning is sent, the workers are
  killed and the process exits with code 1. Nothing runs after that: the remaining
  updates of the batch are not handled and the loop makes no further iteration.
\<close>

theorem panic_command:
  assumes "\<not> is_None (map_of (st_file (world s)) ''owner_id'')"
    and "message upd \<noteq> []"
    and "py_str (value_repr env) (get_or (message upd) ''text'' (JStr [])) = text"
    and "startswith (lower (strip text)) ''/panic''"
  shows "trace (handle_update env now_iso upd s) =
           trace s @ [LogChat ''in'' 1 1 text, Send 1 panic_msg, KillWorkers, OsExit 1]
         \<and> proc (handle_update env now_iso upd s) = Exited 1
         \<and> route_updates env ((now_iso, upd) # ups) s = handle_update env now_iso upd s
         \<and> supervisor_loop env later (handle_update env now_iso upd s)
             = handle_update env now_iso upd s"
proof -
  have ne: "text \<noteq> []"
    using assms(4) startswith_nonempty lower_strip_nonempty by fastforce
  have h: "handle_update env now_iso upd s =
      cmd_panic 1 (save_state (dict_set (st_file (world s)) ''last_owner_message_at'' (JStr now_iso))
                 (emit [LogChat ''in'' 1 1 text] (s\<lparr>offset := update_id upd + 1\<rparr>)))"
    using handle_update_owner [OF assms(1,2,3) ne] assms(4) by (simp add: route_command_def Let_def)
  have t: "trace (handle_update env now_iso upd s) =
           trace s @ [LogChat ''in'' 1 1 text, Send 1 panic_msg, KillWorkers, OsExit 1]"
    by (simp add: h cmd_panic_def emit_def save_state_def)
  have p: "proc (handle_update env now_iso upd s) = Exited 1"
    by (simp add: h cmd_panic_def)
  have l: "supervisor_loop env later (handle_update env now_iso upd s)
             = handle_update env now_iso upd s"
    using p by (cases later) auto
  show ?thesis using t p l by (simp add: Let_def)
qed

lemma panic_text: "startswith (lower (strip ''  /PANIC now'')) ''/panic''"
  by (simp add: startswith_def lower_def strip_def is_space_def lower_char_def seq_len_def
      whitespace_def)

theorem panic_command_witness:
  "\<not> is_None (map_of (st_file (world owned_sup)) ''owner_id'')
   \<and> startswith (lower (strip ''  /PANIC now'')) ''/panic''
   \<and> trace (handle_update (test_senv True) ''t1'' (upd_from 7 1 ''  /PANIC now'') owned_sup)
       = [LogChat ''in'' 1 1 ''  /PANIC now'', Send 1 panic_msg, KillWorkers, OsExit 1]
   \<and> proc (handle_update (test_senv True) ''t1'' (upd_from 7 1 ''  /PANIC now'') owned_sup)
       = Exited 1
   \<and> route_updates (test_senv True)
        [(''t1'', upd_from 7 1 ''  /PANIC now''), (''t2'', upd_from 8 1 ''/status'')] owned_sup
       = handle_update (test_senv True) ''t1'' (upd_from 7 1 ''  /PANIC now'') owned_sup"
proof -
  have m: "message (upd_from 7 1 ''  /PANIC now'') \<noteq> []" by (rule upd_from_message)
  have t: "py_str (value_repr (test_senv True))
             (get_or (message (upd_from 7 1 ''  /PANIC now'')) ''text'' (JStr [])) = ''  /PANIC now''"
    by (rule upd_from_text)
  note w = panic_command [OF owned_sup_has_owner m t panic_text,
             where now_iso = "''t1''" and ups = "[(''t2'', upd_from 8 1 ''/status'')]"
               and later = "[]"]
  show ?thesis
    using w by (simp add: owned_sup_has_owner panic_text) (simp add: owned_sup_def)
qed

text \<open>
  C7 as the specification states it fails: on a fresh install a first message
  \<open>/restart\<close> only registers the owner; \<open>safe_restart\<close> is not called, no worker is
  killed and nothing is re-executed.
\<close>

theorem restart_first_contact_counterexample:
  "is_None (map_of (st_file (world fresh_sup)) ''owner_id'')
   \<and> startswith (lower (strip ''/restart'')) ''/restart''
   \<and> trace (handle_update (test_senv True) ''t1'' (upd_from 7 1 ''/restart'') fresh_sup)
       = [LogChat ''in'' 1 1 ''/restart'', Send 1 owner_registered_msg]
   \<and> proc (handle_update (test_senv True) ''t1'' (upd_from 7 1 ''/restart'') fresh_sup) = Running"
  by (simp add: handle_update_def Let_def emit_def save_state_def fresh_sup_def upd_from_def
      msg_from_def test_senv_def is_None_def get_or_def py_str_def startswith_def lower_def
      strip_def is_space_def lower_char_def seq_len_def whitespace_def)

text \<open>
  C7 (as amended). Once an owner is recorded, a message whose text, stripped and
  lowered, starts with
  \<open>/restart\<close> announces the restart and calls \<open>safe_restart\<close> with reason
  \<open>owner_restart\<close> and policy \<open>rescue_and_reset\<close>. When that returns ok, the workers are
  killed and the supervisor is re-executed, in this order. When it returns not ok, the
  owner is told that the restart was cancelled, with the message returned; no worker is
  killed, nothing is re-executed and the process goes on.
\<close>

theorem restart_command:
  assumes "\<not> is_None (map_of (st_file (world s)) ''owner_id'')"
    and "message upd \<noteq> []"
    and "py_str (value_repr env) (get_or (message upd) ''text'' (JStr [])) = text"
    and "startswith (lower (strip text)) ''/restart''"
    and "safe_restart env ''owner_restart'' ''rescue_and_reset''
           ((world s)\<lparr>st_file := dict_set (st_file (world s)) ''last_owner_message_at'' (JStr now_iso)\<rparr>)
         = ((ok, restart_msg), w)"
  shows "(ok \<longrightarrow>
            trace (handle_update env now_iso upd s) =
              trace s @ [LogChat ''in'' 1 1 text, Send 1 restarting_msg,
                         SafeRestart ''owner_restart'' ''rescue_and_reset'', KillWorkers, OsExecv]
            \<and> proc (handle_update env now_iso upd s) = Reexec)
         \<and> (\<not> ok \<longrightarrow>
            trace (handle_update env now_iso upd s) =
              trace s @ [LogChat ''in'' 1 1 text, Send 1 restarting_msg,
                         SafeRestart ''owner_restart'' ''rescue_and_reset'',
                         Send 1 (restart_cancelled_msg restart_msg)]
            \<and> proc (handle_update env now_iso upd s) = proc s)"
proof -
  have ne: "text \<noteq> []"
    using assms(4) startswith_nonempty lower_strip_nonempty by fastforce
  have np: "\<not> startswith (lower (strip text)) ''/panic''"
    by (rule startswith_shorter [OF assms(4), of 6]) simp_all
  have h: "handle_update env now_iso upd s =
      cmd_restart env 1 (save_state (dict_set (st_file (world s)) ''last_owner_message_at'' (JStr now_iso))
                 (emit [LogChat ''in'' 1 1 text] (s\<lparr>offset := update_id upd + 1\<rparr>)))"
    using handle_update_owner [OF assms(1,2,3) ne] assms(4) np
    by (simp add: route_command_def Let_def)
  show ?thesis
    using assms(5) by (simp add: h cmd_restart_def emit_def save_state_def Let_def)
qed

lemma restart_text: "startswith (lower (strip ''/Restart'')) ''/restart''"
  by (simp add: startswith_def lower_def strip_def is_space_def lower_char_def seq_len_def
      whitespace_def)

lemma test_safe_restart:
  "safe_restart (test_senv b) ''owner_restart'' ''rescue_and_reset'' w
     = ((b, ''restart lock held''), w)"
  by (simp add: test_senv_def)

theorem restart_command_witness:
  "\<not> is_None (map_of (st_file (world owned_sup)) ''owner_id'')
   \<and> startswith (lower (strip ''/Restart'')) ''/restart''
   \<and> trace (handle_update (test_senv True) ''t1'' (upd_from 7 1 ''/Restart'') owned_sup)
       = [LogChat ''in'' 1 1 ''/Restart'', Send 1 restarting_msg,
          SafeRestart ''owner_restart'' ''rescue_and_reset'', KillWorkers, OsExecv]
   \<and> proc (handle_update (test_senv True) ''t1'' (upd_from 7 1 ''/Restart'') owned_sup) = Reexec
   \<and> trace (handle_update (test_senv False) ''t1'' (upd_from 7 1 ''/Restart'') owned_sup)
       = [LogChat ''in'' 1 1 ''/Restart'', Send 1 restarting_msg,
          SafeRestart ''owner_restart'' ''rescue_and_reset'',
          Send 1 (restart_cancelled_msg ''restart lock held'')]
   \<and> proc (handle_update (test_senv False) ''t1'' (upd_from 7 1 ''/Restart'') owned_sup) = Running"
proof -
  have m: "message (upd_from 7 1 ''/Restart'') \<noteq> []" by (rule upd_from_message)
  have t: "py_str (value_repr (test_senv b))
             (get_or (message (upd_from 7 1 ''/Restart'')) ''text'' (JStr [])) = ''/Restart''" for b
    by (rule upd_from_text)
  note yes = restart_command [OF owned_sup_has_owner m t [of True] restart_text
               test_safe_restart [of True], where now_iso = "''t1''"]
  note no = restart_command [OF owned_sup_has_owner m t [of False] restart_text
               test_safe_restart [of False], where now_iso = "''t1''"]
  show ?thesis
    using yes no by (simp add: owned_sup_has_owner restart_text) (simp add: owned_sup_def)
qed

text \<open>
  C5 as the specification states it fails: on a fresh install, with evolution mode on
  and three evolution tasks pending, a first message \<open>/evolve off\<close> only registers the
  owner. The flag stays on, the pending list keeps its evolution tasks and no snapshot is
  written.
\<close>

theorem evolve_off_first_contact_counterexample:
  "is_None (map_of (st_file (world unowned_sup)) ''owner_id'')
   \<and> lower (strip ''/evolve off'') = ''/evolve off''
   \<and> map_of (st_file (world (handle_update (test_senv True) ''t1''
                (upd_from 7 1 ''/evolve off'') unowned_sup))) ''evolution_mode_enabled''
       = Some (JBool True)
   \<and> PENDING (world (handle_update (test_senv True) ''t1''
                (upd_from 7 1 ''/evolve off'') unowned_sup)) = test_pending
   \<and> length (filter (is_evolution (test_senv True)) test_pending) = 3
   \<and> trace (handle_update (test_senv True) ''t1'' (upd_from 7 1 ''/evolve off'') unowned_sup)
       = [LogChat ''in'' 1 1 ''/evolve off'', Send 1 owner_registered_msg]"
  by (simp add: handle_update_def Let_def emit_def save_state_def unowned_sup_def upd_from_def
      msg_from_def test_senv_def is_None_def get_or_def py_str_def lower_def
      strip_def is_space_def lower_char_def seq_len_def whitespace_def
      test_pending_def mk_task_def is_evolution_def)

text \<open>
  C5 (as amended). Once an owner is recorded, the message \<open>/evolve off\<close> (in any case,
  with any surrounding whitespace) sets \<open>evolution_mode_enabled\<close> to false in the state, leaves
  no task of type evolution in the pending list, keeps every other pending task, each
  as often as before, in the order of (priority, created_at), and writes a queue
  snapshot of that list before it answers. This holds for every pending list.
\<close>

theorem evolve_off_purges:
  assumes "\<not> is_None (map_of (st_file (world s)) ''owner_id'')"
    and "message upd \<noteq> []"
    and "py_str (value_repr env) (get_or (message upd) ''text'' (JStr [])) = text"
    and "lower (strip text) = ''/evolve off''"
  shows "map_of (st_file (world (handle_update env now_iso upd s))) ''evolution_mode_enabled''
           = Some (JBool False)
         \<and> filter (is_evolution env) (PENDING (world (handle_update env now_iso upd s))) = []
         \<and> mset (PENDING (world (handle_update env now_iso upd s)))
             = mset (filter (\<lambda>t. \<not> is_evolution env t) (PENDING (world s)))
         \<and> sorted (map (\<lambda>t. (priority t, created_at t))
                      (PENDING (world (handle_update env now_iso upd s))))
         \<and> trace (handle_update env now_iso upd s) =
             trace s @ [LogChat ''in'' 1 1 text,
                        PersistSnapshot ''evolve_off'' (PENDING (world (handle_update env now_iso upd s))),
                        Send 1 (evolution_msg ''OFF'')]"
proof -
  let ?s2 = "save_state (dict_set (st_file (world s)) ''last_owner_message_at'' (JStr now_iso))
               (emit [LogChat ''in'' 1 1 text] (s\<lparr>offset := update_id upd + 1\<rparr>))"
  let ?kept = "filter (\<lambda>t. \<not> is_evolution env t) (PENDING (world s))"
  have "lower (strip text) \<noteq> []"
    by (simp add: assms(4))
  then have ne: "text \<noteq> []"
    by (rule lower_strip_nonempty)
  have h: "handle_update env now_iso upd s = cmd_evolve env 1 ''/evolve off'' ?s2"
    using handle_update_owner [OF assms(1,2,3) ne] assms(4)
    by (simp add: route_command_def Let_def startswith_def)
  have parts: "second_or (split ''/evolve off'') ''on'' = ''off''"
    by (simp add: second_or_def split_def is_space_def seq_len_def whitespace_def)
  have p: "PENDING (world (handle_update env now_iso upd s)) = sort_pending ?kept"
    by (simp add: h cmd_evolve_def parts Let_def emit_def save_state_def
        persist_queue_snapshot_def is_evolution_def)
  have st: "st_file (world (handle_update env now_iso upd s)) =
      dict_set (dict_set (st_file (world s)) ''last_owner_message_at'' (JStr now_iso))
        ''evolution_mode_enabled'' (JBool False)"
    by (simp add: h cmd_evolve_def parts Let_def emit_def save_state_def
        persist_queue_snapshot_def)
  have tr: "trace (handle_update env now_iso upd s) =
      trace s @ [LogChat ''in'' 1 1 text, PersistSnapshot ''evolve_off'' (sort_pending ?kept),
                 Send 1 (evolution_msg ''OFF'')]"
    by (simp add: h cmd_evolve_def parts Let_def emit_def save_state_def
        persist_queue_snapshot_def is_evolution_def)
  have m: "mset (sort_pending ?kept) = mset ?kept"
    by (simp add: sort_pending_def)
  have "set (sort_pending ?kept) = set ?kept"
    using m by (rule mset_eq_setD)
  then have none: "filter (is_evolution env) (sort_pending ?kept) = []"
    by (auto simp: filter_empty_conv)
  have so: "sorted (map (\<lambda>t. (priority t, created_at t)) (sort_pending ?kept))"
    by (simp add: sort_pending_def)
  show ?thesis
    using none m so by (simp add: p st tr map_of_dict_set)
qed

lemma evolve_text: "lower (strip ''  /Evolve OFF '') = ''/evolve off''"
  by (simp add: lower_def strip_def is_space_def lower_char_def seq_len_def whitespace_def)

theorem evolve_off_purges_witness:
  "\<not> is_None (map_of (st_file (world owned_sup)) ''owner_id'')
   \<and> lower (strip ''  /Evolve OFF '') = ''/evolve off''
   \<and> length (filter (is_evolution (test_senv True)) (PENDING (world owned_sup))) = 3
   \<and> map_of (st_file (world (handle_update (test_senv True) ''t1''
                (upd_from 7 1 ''  /Evolve OFF '') owned_sup))) ''evolution_mode_enabled''
       = Some (JBool False)
   \<and> filter (is_evolution (test_senv True))
        (PENDING (world (handle_update (test_senv True) ''t1''
                (upd_from 7 1 ''  /Evolve OFF '') owned_sup))) = []
   \<and> mset (PENDING (world (handle_update (test_senv True) ''t1''
                (upd_from 7 1 ''  /Evolve OFF '') owned_sup)))
       = {#mk_task ''b2'' ''review'' 2 11, mk_task ''d4'' ''chat'' 0 13#}"
proof -
  have m: "message (upd_from 7 1 ''  /Evolve OFF '') \<noteq> []" by (rule upd_from_message)
  have t: "py_str (value_repr (test_senv True))
             (get_or (message (upd_from 7 1 ''  /Evolve OFF '')) ''text'' (JStr []))
           = ''  /Evolve OFF ''"
    by (rule upd_from_text)
  note w = evolve_off_purges [OF owned_sup_has_owner m t evolve_text, where now_iso = "''t1''"]
  have three: "length (filter (is_evolution (test_senv True)) (PENDING (world owned_sup))) = 3"
    by (simp add: owned_sup_def test_pending_def mk_task_def is_evolution_def py_str_def)
  have kept: "filter (\<lambda>t. \<not> is_evolution (test_senv True) t) (PENDING (world owned_sup))
      = [mk_task ''b2'' ''review'' 2 11, mk_task ''d4'' ''chat'' 0 13]"
    by (simp add: owned_sup_def test_pending_def mk_task_def is_evolution_def py_str_def)
  show ?thesis
    using w three by (simp add: owned_sup_has_owner evolve_text kept)
qed

subsection \<open>One iteration of the loop\<close>

text \<open>
  C9. In every iteration the trace grows by these steps in this order: the chat log
  rotation and the health check, then one dispatch for each event of the queue, in
  queue order, then the timeout enforcement, the evolution trigger, the assignment of
  tasks, the queue snapshot with reason \<open>main_loop\<close>, the read of the chat inbox, and
  then the routing of the updates read. The routing adds none of these steps; it handles
  the updates one after the other, in order, up to the first that ends the process (all
  of them when the process is still running at the end), and each handled update that
  carries a message leaves its log entry. The router starts from the world that
  dispatch, timeouts, trigger and assignment have left, so a chat command sees their
  effects.
\<close>

theorem tick_phase_order:
  "\<exists>chat n.
     trace (tick env evts ups s) =
       trace s @ [RotateChatLog, EnsureWorkersHealthy] @ map DispatchEvent evts @
         [EnforceTaskTimeouts, EnqueueEvolutionIfNeeded, AssignTasks,
          PersistSnapshot ''main_loop'' (PENDING (world (before_chat env evts s))),
          GetUpdates (offset s)] @ chat
     \<and> (\<forall>e \<in> set chat. \<not> is_phase e)
     \<and> n \<le> length ups
     \<and> filter is_log chat = logs_of env (take n ups)
     \<and> (proc s = Running \<and> proc (tick env evts ups s) = Running \<longrightarrow> n = length ups)
     \<and> (proc s = Running \<longrightarrow>
          tick env evts ups s =
            fold (\<lambda>u st. if proc st = Running then handle_update env (fst u) (snd u) st else st)
              ups (emit [GetUpdates (offset s)] (before_chat env evts s)))
     \<and> world (before_chat env evts s) =
         assign_tasks env (enqueue_evolution_task_if_needed env (enforce_task_timeouts env
           (fold (dispatch_event env) evts
              (ensure_workers_healthy env (rotate_chat_log_if_needed env (world s))))))"
proof -
  let ?s8 = "emit [GetUpdates (offset s)] (before_chat env evts s)"
  have t: "tick env evts ups s = route_updates env ups ?s8"
    by (simp add: tick_def Let_def before_chat_offset)
  have p8: "proc ?s8 = proc s"
    by (simp add: emit_def before_chat_proc)
  obtain chat n where c: "trace (route_updates env ups ?s8) = trace ?s8 @ chat"
      and np: "\<forall>e \<in> set chat. \<not> is_phase e"
      and n: "n \<le> length ups" and f: "filter is_log chat = logs_of env (take n ups)"
      and a: "proc (route_updates env ups ?s8) = Running \<and> proc ?s8 = Running \<longrightarrow> n = length ups"
    using route_updates_trace [of env ups ?s8] by blast
  have "trace ?s8 = trace (before_chat env evts s) @ [GetUpdates (offset s)]"
    by (simp add: emit_def)
  with c have tr: "trace (tick env evts ups s) =
       trace s @ [RotateChatLog, EnsureWorkersHealthy] @ map DispatchEvent evts @
         [EnforceTaskTimeouts, EnqueueEvolutionIfNeeded, AssignTasks,
          PersistSnapshot ''main_loop'' (PENDING (world (before_chat env evts s))),
          GetUpdates (offset s)] @ chat"
    using before_chat_trace [of env evts s] by (simp add: t)
  have fo: "tick env evts ups s =
            fold (\<lambda>u st. if proc st = Running then handle_update env (fst u) (snd u) st else st)
              ups ?s8" if "proc s = Running"
    using that route_updates_fold [of ?s8 env ups] by (simp add: t p8)
  from a have a': "proc s = Running \<and> proc (tick env evts ups s) = Running \<longrightarrow> n = length ups"
    by (simp add: t p8)
  show ?thesis
    using tr np n f a' fo before_chat_world [of env evts s] by blast
qed

lemma test_before_chat_pending:
  "PENDING (world (before_chat (test_senv b) evts owned_sup)) = tl test_pending"
proof -
  have "fold (dispatch_event (test_senv b)) evts w = w" for w
    by (induction evts) (simp_all add: test_senv_def)
  then show ?thesis
    by (simp add: before_chat_world) (simp add: test_senv_def owned_sup_def)
qed

lemma test_tick_running:
  "proc (tick (test_senv True) [Event ''heartbeat'' []]
           [(''t1'', upd_from 7 1 ''/evolve off''), (''t2'', upd_from 8 1 ''hello'')] owned_sup)
     = Running"
  by (simp add: tick_def before_chat_def drain_events_def call_def persist_queue_snapshot_def
      emit_def Let_def handle_update_def route_command_def save_state_def cmd_evolve_def
      forward_to_agent_def owned_sup_def upd_from_def msg_from_def test_senv_def is_None_def
      get_or_def py_str_def startswith_def lower_def strip_def is_space_def lower_char_def
      seq_len_def whitespace_def)

theorem tick_phase_order_witness:
  "take 8 (trace (tick (test_senv True) [Event ''heartbeat'' []]
             [(''t1'', upd_from 7 1 ''/evolve off''), (''t2'', upd_from 8 1 ''hello'')] owned_sup))
     = [RotateChatLog, EnsureWorkersHealthy, DispatchEvent (Event ''heartbeat'' []),
        EnforceTaskTimeouts, EnqueueEvolutionIfNeeded, AssignTasks,
        PersistSnapshot ''main_loop'' (tl test_pending), GetUpdates 0]
   \<and> filter is_phase (drop 8 (trace (tick (test_senv True) [Event ''heartbeat'' []]
             [(''t1'', upd_from 7 1 ''/evolve off''), (''t2'', upd_from 8 1 ''hello'')] owned_sup)))
       = []
   \<and> filter is_log (drop 8 (trace (tick (test_senv True) [Event ''heartbeat'' []]
             [(''t1'', upd_from 7 1 ''/evolve off''), (''t2'', upd_from 8 1 ''hello'')] owned_sup)))
       = [LogChat ''in'' 1 1 ''/evolve off'', LogChat ''in'' 1 1 ''hello'']"
proof -
  let ?ups = "[(''t1'', upd_from 7 1 ''/evolve off''), (''t2'', upd_from 8 1 ''hello'')]"
  let ?t = "tick (test_senv True) [Event ''heartbeat'' []] ?ups owned_sup"
  obtain chat n where
    c: "trace ?t
        = trace owned_sup @ [RotateChatLog, EnsureWorkersHealthy]
            @ map DispatchEvent [Event ''heartbeat'' []]
            @ [EnforceTaskTimeouts, EnqueueEvolutionIfNeeded, AssignTasks,
               PersistSnapshot ''main_loop''
                 (PENDING (world (before_chat (test_senv True) [Event ''heartbeat'' []] owned_sup))),
               GetUpdates (offset owned_sup)] @ chat"
    and np: "\<forall>e \<in> set chat. \<not> is_phase e"
    and f: "filter is_log chat = logs_of (test_senv True) (take n ?ups)"
    and a: "proc owned_sup = Running \<and> proc ?t = Running \<longrightarrow> n = length ?ups"
    using tick_phase_order [of "test_senv True" "[Event ''heartbeat'' []]" ?ups owned_sup]
    by blast
  have o: "trace owned_sup = []" "offset owned_sup = 0" "proc owned_sup = Running"
    by (simp_all add: owned_sup_def)
  from a have n: "n = 2"
    by (simp add: o test_tick_running)
  have l: "logs_of (test_senv True) ?ups
             = [LogChat ''in'' 1 1 ''/evolve off'', LogChat ''in'' 1 1 ''hello'']"
    by (simp add: logs_of_def text_of_def upd_from_text upd_from_message)
  from np have "filter is_phase chat = []"
    by (simp add: filter_empty_conv)
  then show ?thesis
    using f by (simp add: c o test_before_chat_pending n l)
qed

subsection \<open>Who the owner is\<close>

text \<open>
  C4 as the specification states it fails. On a fresh install a message from chat 100
  records the owner chat as 1, not 100. Once the owner is recorded, a message from chat
  200 changes the state (the time of the last owner message) and is passed to the chat
  agent; had it been \<open>/status\<close>, the status would have been sent in reply.
\<close>

theorem owner_registration_counterexample:
  "is_None (map_of (st_file (world fresh_sup)) ''owner_id'')
   \<and> map_of (message (upd_from 7 100 ''hi'')) ''chat'' = Some (JDict [(''id'', JInt 100)])
   \<and> map_of (st_file (world (handle_update (test_senv True) ''t1'' (upd_from 7 100 ''hi'') fresh_sup)))
        ''owner_chat_id'' = Some (JInt 1)
   \<and> st_file (world (handle_update (test_senv True) ''t2'' (upd_from 8 200 ''hello'')
        (handle_update (test_senv True) ''t1'' (upd_from 7 100 ''hi'') fresh_sup)))
       \<noteq> st_file (world (handle_update (test_senv True) ''t1'' (upd_from 7 100 ''hi'') fresh_sup))
   \<and> trace (handle_update (test_senv True) ''t2'' (upd_from 8 200 ''hello'')
        (handle_update (test_senv True) ''t1'' (upd_from 7 100 ''hi'') fresh_sup))
       = trace (handle_update (test_senv True) ''t1'' (upd_from 7 100 ''hi'') fresh_sup)
         @ [LogChat ''in'' 1 1 ''hello'', InjectObservation ''Owner message: hello'',
            ConsciousnessPause, StartChatThread 1 ''hello'']
   \<and> trace (handle_update (test_senv True) ''t2'' (upd_from 8 200 ''/status'')
        (handle_update (test_senv True) ''t1'' (upd_from 7 100 ''hi'') fresh_sup))
       = trace (handle_update (test_senv True) ''t1'' (upd_from 7 100 ''hi'') fresh_sup)
         @ [LogChat ''in'' 1 1 ''/status'', Send 1 ''status'']"
  by (simp add: handle_update_def route_command_def Let_def emit_def save_state_def
      fresh_sup_def upd_from_def msg_from_def test_senv_def is_None_def get_or_def py_str_def
      forward_to_agent_def cmd_status_def startswith_def lower_def strip_def is_space_def
      lower_char_def seq_len_def whitespace_def first_chars_def)

text \<open>
  C4 (as amended). On a fresh install the first message records the owner as the fixed
  local identity, \<open>owner_id\<close> 1 and \<open>owner_chat_id\<close> 1, and is answered with the welcome,
  sent to chat 1. The handler never reads the sender: two updates with the same id whose
  messages have the same text are handled alike, whatever chat they name. Once an owner
  is recorded, every message, from whatever chat, is the owner's: it is logged for chat
  1, its time is written to the state as \<open>last_owner_message_at\<close>, and when it has text
  it is routed from there as a command or to the chat agent; a text that does not begin
  with a slash goes to the consciousness as an observation and to the chat agent.
\<close>

theorem sender_is_never_read:
  "(is_None (map_of (st_file (world s)) ''owner_id'') \<and> message upd \<noteq> [] \<longrightarrow>
      map_of (st_file (world (handle_update env now_iso upd s))) ''owner_id'' = Some (JInt 1)
      \<and> map_of (st_file (world (handle_update env now_iso upd s))) ''owner_chat_id''
          = Some (JInt 1)
      \<and> trace (handle_update env now_iso upd s) =
          trace s @ [LogChat ''in'' 1 1 (text_of env upd), Send 1 owner_registered_msg])
   \<and> (m1 \<noteq> [] \<and> m2 \<noteq> [] \<and> map_of m1 ''text'' = map_of m2 ''text'' \<longrightarrow>
      handle_update env now_iso \<lparr>update_id = i, message = m1\<rparr> s
        = handle_update env now_iso \<lparr>update_id = i, message = m2\<rparr> s)
   \<and> (\<not> is_None (map_of (st_file (world s)) ''owner_id'') \<and> message upd \<noteq> [] \<longrightarrow>
      handle_update env now_iso upd s =
        (if text_of env upd = [] then stamped (text_of env upd) now_iso upd s
         else route_command env 1 (text_of env upd) (stamped (text_of env upd) now_iso upd s))
      \<and> trace (stamped (text_of env upd) now_iso upd s)
          = trace s @ [LogChat ''in'' 1 1 (text_of env upd)]
      \<and> map_of (st_file (world (stamped (text_of env upd) now_iso upd s))) ''last_owner_message_at''
          = Some (JStr now_iso)
      \<and> (text_of env upd \<noteq> [] \<and> \<not> startswith (lower (strip (text_of env upd))) ''/'' \<longrightarrow>
           trace (handle_update env now_iso upd s) =
             trace s @ [LogChat ''in'' 1 1 (text_of env upd),
                        InjectObservation (''Owner message: '' @ first_chars 100 (text_of env upd))]
               @ (if agent_busy env (rest (world s)) then [AgentInjectMessage (text_of env upd)]
                  else [ConsciousnessPause, StartChatThread 1 (text_of env upd)])
           \<and> map_of (st_file (world (handle_update env now_iso upd s))) ''last_owner_message_at''
               = Some (JStr now_iso)))"
proof -
  let ?text = "text_of env upd"
  have a: "map_of (st_file (world (handle_update env now_iso upd s))) ''owner_id'' = Some (JInt 1)
      \<and> map_of (st_file (world (handle_update env now_iso upd s))) ''owner_chat_id''
          = Some (JInt 1)
      \<and> trace (handle_update env now_iso upd s) =
          trace s @ [LogChat ''in'' 1 1 ?text, Send 1 owner_registered_msg]"
    if "is_None (map_of (st_file (world s)) ''owner_id'')" and "message upd \<noteq> []"
    using that
    by (simp add: handle_update_def Let_def emit_def save_state_def map_of_dict_set text_of_def)
  have b: "handle_update env now_iso \<lparr>update_id = i, message = m1\<rparr> s
        = handle_update env now_iso \<lparr>update_id = i, message = m2\<rparr> s"
    if "m1 \<noteq> []" and "m2 \<noteq> []" and "map_of m1 ''text'' = map_of m2 ''text''"
    using that by (simp add: handle_update_def Let_def get_or_def)
  have st: "trace (stamped ?text now_iso upd s) = trace s @ [LogChat ''in'' 1 1 ?text]
      \<and> map_of (st_file (world (stamped ?text now_iso upd s))) ''last_owner_message_at''
          = Some (JStr now_iso)"
    by (simp add: stamped_def emit_def save_state_def map_of_dict_set)
  have c: "handle_update env now_iso upd s =
        (if ?text = [] then stamped ?text now_iso upd s
         else route_command env 1 ?text (stamped ?text now_iso upd s))"
    if o: "\<not> is_None (map_of (st_file (world s)) ''owner_id'')" and m: "message upd \<noteq> []"
  proof (cases "?text = []")
    case True
    then have "py_str (value_repr env) (get_or (message upd) ''text'' (JStr [])) = []"
      by (simp add: text_of_def)
    from handle_update_owner_empty [OF o m this] True show ?thesis
      by (simp add: stamped_def)
  next
    case False
    have "py_str (value_repr env) (get_or (message upd) ''text'' (JStr [])) = ?text"
      by (simp add: text_of_def)
    from handle_update_owner [OF o m this False] False show ?thesis
      by (simp add: stamped_def)
  qed
  have d: "trace (handle_update env now_iso upd s) =
             trace s @ [LogChat ''in'' 1 1 ?text,
                        InjectObservation (''Owner message: '' @ first_chars 100 ?text)]
               @ (if agent_busy env (rest (world s)) then [AgentInjectMessage ?text]
                  else [ConsciousnessPause, StartChatThread 1 ?text])
           \<and> map_of (st_file (world (handle_update env now_iso upd s))) ''last_owner_message_at''
               = Some (JStr now_iso)"
    if o: "\<not> is_None (map_of (st_file (world s)) ''owner_id'')" and m: "message upd \<noteq> []"
      and ne: "?text \<noteq> []" and ns: "\<not> startswith (lower (strip ?text)) ''/''"
  proof -
    have no: "\<not> startswith (lower (strip ?text)) p" if "take 1 p = ''/''" for p
      using ns startswith_take [of "lower (strip ?text)" p 1] that by auto
    have r: "route_command env 1 ?text (stamped ?text now_iso upd s)
               = forward_to_agent env 1 ?text (stamped ?text now_iso upd s)"
      by (simp add: route_command_def Let_def no)
    have h: "handle_update env now_iso upd s
               = forward_to_agent env 1 ?text (stamped ?text now_iso upd s)"
      using c [OF o m] ne r by simp
    show ?thesis
      by (simp add: h forward_to_agent_def Let_def stamped_def emit_def save_state_def
          map_of_dict_set)
  qed
  show ?thesis using a b c d st by blast
qed

theorem sender_is_never_read_witness:
  "is_None (map_of (st_file (world fresh_sup)) ''owner_id'')
   \<and> message (upd_from 7 100 ''hi'') \<noteq> []
   \<and> map_of (st_file (world (handle_update (test_senv True) ''t1'' (upd_from 7 100 ''hi'') fresh_sup)))
        ''owner_chat_id'' = Some (JInt 1)
   \<and> trace (handle_update (test_senv True) ''t1'' (upd_from 7 100 ''hi'') fresh_sup)
       = [LogChat ''in'' 1 1 ''hi'', Send 1 owner_registered_msg]
   \<and> handle_update (test_senv True) ''t2'' (upd_from 8 200 ''hello'') owned_sup
       = handle_update (test_senv True) ''t2'' (upd_from 8 1 ''hello'') owned_sup
   \<and> \<not> is_None (map_of (st_file (world owned_sup)) ''owner_id'')
   \<and> \<not> startswith (lower (strip ''hello'')) ''/''
   \<and> trace (handle_update (test_senv True) ''t2'' (upd_from 8 200 ''hello'') owned_sup)
       = [LogChat ''in'' 1 1 ''hello'', InjectObservation ''Owner message: hello'',
          ConsciousnessPause, StartChatThread 1 ''hello'']
   \<and> map_of (st_file (world (handle_update (test_senv True) ''t2'' (upd_from 8 200 ''hello'')
          owned_sup))) ''last_owner_message_at'' = Some (JStr ''t2'')"
proof -
  have m: "message (upd_from u c t) \<noteq> []" for u c t by (rule upd_from_message)
  have tx: "text_of (test_senv True) (upd_from u c t) = t" for u c t
    by (simp add: text_of_def upd_from_text)
  note w1 = sender_is_never_read [where s = fresh_sup and upd = "upd_from 7 100 ''hi''"
              and env = "test_senv True" and now_iso = "''t1''"]
  note w2 = sender_is_never_read [where s = owned_sup and env = "test_senv True"
              and now_iso = "''t2''" and ?m1.0 = "msg_from 200 ''hello''"
              and ?m2.0 = "msg_from 1 ''hello''" and i = 8
              and upd = "upd_from 8 200 ''hello''"]
  have same: "map_of (msg_from 200 ''hello'') ''text'' = map_of (msg_from 1 ''hello'') ''text''"
    by (simp add: msg_from_def)
  have ne: "msg_from c t \<noteq> []" for c t
    by (simp add: msg_from_def)
  have ns: "\<not> startswith (lower (strip ''hello'')) ''/''"
    by (simp add: startswith_def lower_def strip_def is_space_def lower_char_def seq_len_def
        whitespace_def)
  have fc: "first_chars 100 ''hello'' = ''hello''"
    by (simp add: first_chars_def seq_len_def)
  have busy: "\<not> agent_busy (test_senv True) r" for r
    by (simp add: test_senv_def)
  from w1 have f: "map_of (st_file (world (handle_update (test_senv True) ''t1''
                      (upd_from 7 100 ''hi'') fresh_sup))) ''owner_chat_id'' = Some (JInt 1)
      \<and> trace (handle_update (test_senv True) ''t1'' (upd_from 7 100 ''hi'') fresh_sup)
          = trace fresh_sup @ [LogChat ''in'' 1 1 ''hi'', Send 1 owner_registered_msg]"
    by (simp add: fresh_sup_no_owner m tx)
  from w2 have g: "handle_update (test_senv True) ''t2'' (upd_from 8 200 ''hello'') owned_sup
       = handle_update (test_senv True) ''t2'' (upd_from 8 1 ''hello'') owned_sup"
    by (simp add: same ne upd_from_def)
  have pre: "\<not> is_None (map_of (st_file (world owned_sup)) ''owner_id'')
      \<and> message (upd_from 8 200 ''hello'') \<noteq> []"
    by (simp add: owned_sup_has_owner m)
  have pre2: "text_of (test_senv True) (upd_from 8 200 ''hello'') \<noteq> []
      \<and> \<not> startswith (lower (strip (text_of (test_senv True) (upd_from 8 200 ''hello'')))) ''/''"
    by (simp add: tx ns)
  from w2 pre pre2
  have "trace (handle_update (test_senv True) ''t2'' (upd_from 8 200 ''hello'') owned_sup) =
          trace owned_sup @ [LogChat ''in'' 1 1 (text_of (test_senv True) (upd_from 8 200 ''hello'')),
            InjectObservation (''Owner message: ''
              @ first_chars 100 (text_of (test_senv True) (upd_from 8 200 ''hello'')))]
            @ (if agent_busy (test_senv True) (rest (world owned_sup))
               then [AgentInjectMessage (text_of (test_senv True) (upd_from 8 200 ''hello''))]
               else [ConsciousnessPause,
                     StartChatThread 1 (text_of (test_senv True) (upd_from 8 200 ''hello''))])
      \<and> map_of (st_file (world (handle_update (test_senv True) ''t2'' (upd_from 8 200 ''hello'')
          owned_sup))) ''last_owner_message_at'' = Some (JStr ''t2'')"
    by blast
  then have h: "trace (handle_update (test_senv True) ''t2'' (upd_from 8 200 ''hello'') owned_sup)
       = trace owned_sup @ [LogChat ''in'' 1 1 ''hello'', InjectObservation ''Owner message: hello'',
          ConsciousnessPause, StartChatThread 1 ''hello'']
      \<and> map_of (st_file (world (handle_update (test_senv True) ''t2'' (upd_from 8 200 ''hello'')
          owned_sup))) ''last_owner_message_at'' = Some (JStr ''t2'')"
    by (simp add: tx fc busy)
  have o: "trace owned_sup = []" "trace fresh_sup = []"
    by (simp_all add: owned_sup_def fresh_sup_def)
  show ?thesis
    using f g h by (simp add: fresh_sup_no_owner owned_sup_has_owner m ns o)
qed

end
